theory Spec2Isabelle
  imports Complex_Main "HOL-Library.Char_ord" "HOL-Library.List_Lexorder"
begin

section \<open>Errors\<close>

text \<open>
  Every \<^verbatim>\<open>raise\<close> of the two modules is one constructor; the Python exception class
  it belongs to is read off by \<open>error_class\<close>. Python floats are modelled as
  \<^typ>\<open>real\<close>: rounding, infinities and NaN are outside the model.
\<close>

datatype exception_class = ValueError | TypeError | UserInputError | NotImplementedError | AttributeError

datatype error =
    ParamNotPresent string
  | DuplicateParameter
  | NotRangeParameter
  | LogScaleParameter
  | NoSuchAttribute
  | MultiObjectiveNotSupported
  | CannotConstrainObjectiveMetric
  | DuplicateOutcomeConstraints string
  | LowerBoundGeqUpperBound real real string
  | RequiresMultiOrScalarized
  | ThresholdNotAmongObjectives string
  | MoreThanOneThreshold string
  | ThresholdMisaligned string bool bool
  | NoSingleMetric

fun error_class :: "error \<Rightarrow> exception_class" where
  "error_class (ParamNotPresent _) = ValueError"
| "error_class DuplicateParameter = ValueError"
| "error_class NotRangeParameter = ValueError"
| "error_class LogScaleParameter = ValueError"
| "error_class NoSuchAttribute = AttributeError"
| "error_class MultiObjectiveNotSupported = ValueError"
| "error_class CannotConstrainObjectiveMetric = ValueError"
| "error_class (DuplicateOutcomeConstraints _) = ValueError"
| "error_class (LowerBoundGeqUpperBound _ _ _) = ValueError"
| "error_class RequiresMultiOrScalarized = TypeError"
| "error_class (ThresholdNotAmongObjectives _) = UserInputError"
| "error_class (MoreThanOneThreshold _) = UserInputError"
| "error_class (ThresholdMisaligned _ _ _) = UserInputError"
| "error_class NoSingleMetric = NotImplementedError"

datatype ComparisonOp = GEQ | LEQ

section \<open>Parameter constraints (ax/core/parameter\_constraint.py)\<close>

subsection \<open>Parameters\<close>

text \<open>
  The parameter classes are declared outside the sources at hand. A parameter is kept
  with what \<^verbatim>\<open>validate_constraint_parameters\<close> reads: its name, whether it is a
  \<^verbatim>\<open>RangeParameter\<close> and, for a range parameter, its bounds and \<^verbatim>\<open>log_scale\<close> flag.
\<close>

datatype Parameter =
    RangeParameter string real real bool
  | ChoiceParameter string
  | FixedParameter string

fun name :: "Parameter \<Rightarrow> string" where
  "name (RangeParameter n _ _ _) = n"
| "name (ChoiceParameter n) = n"
| "name (FixedParameter n) = n"

text \<open>
  Modelled from the spec: \<^verbatim>\<open>Parameter.clone\<close> is not among the sources; a clone is a
  copy of the parameter, field for field.
\<close>

definition parameter_clone :: "Parameter \<Rightarrow> Parameter" where
  "parameter_clone p = p"

text \<open>The loop of \<^verbatim>\<open>validate_constraint_parameters\<close> over the parameters.\<close>

fun validate_each :: "Parameter list \<Rightarrow> error + unit" where
  "validate_each [] = Inr ()"
| "validate_each (RangeParameter n lo hi lg # ps) =
     (if lg then Inl LogScaleParameter else validate_each ps)"
| "validate_each (_ # ps) = Inl NotRangeParameter"

definition validate_constraint_parameters :: "Parameter list \<Rightarrow> error + unit" where
  "validate_constraint_parameters parameters =
     (if card (set (map name parameters)) \<noteq> length parameters then Inl DuplicateParameter
      else validate_each parameters)"

subsection \<open>Dictionaries\<close>

text \<open>
  A Python \<^verbatim>\<open>dict\<close> keeps insertion order and one entry per key: an association
  list in which storing under a key that is present replaces the value in place.
\<close>

fun dict_set :: "'k \<Rightarrow> 'v \<Rightarrow> ('k \<times> 'v) list \<Rightarrow> ('k \<times> 'v) list" where
  "dict_set k v [] = [(k, v)]"
| "dict_set k v ((k', v') # d) = (if k' = k then (k, v) # d else (k', v') # dict_set k v d)"

definition dict_of :: "('k \<times> 'v) list \<Rightarrow> ('k \<times> 'v) list" where
  "dict_of kvs = foldl (\<lambda>d (k, v). dict_set k v d) [] kvs"

subsection \<open>The three constraint classes\<close>

text \<open>
  One constructor per class, holding the instance attributes the class assigns in
  \<^verbatim>\<open>__init__\<close>: \<open>ParameterConstraint _constraint_dict _bound\<close>,
  \<open>OrderConstraint _lower_parameter _upper_parameter _bound\<close> and
  \<open>SumConstraint _parameters _is_upper_bound _parameter_names _bound _constraint_dict\<close>.
\<close>

datatype ParameterConstraint =
    ParameterConstraint "(string \<times> real) list" real
  | OrderConstraint Parameter Parameter real
  | SumConstraint "Parameter list" bool "string list" real "(string \<times> real) list"

text \<open>\<^verbatim>\<open>SumConstraint._inequality_weight\<close>, as a function of \<^verbatim>\<open>_is_upper_bound\<close>.\<close>

definition inequality_weight :: "bool \<Rightarrow> real" where
  "inequality_weight is_upper = (if is_upper then 1 else - 1)"

definition ParameterConstraint_init :: "(string \<times> real) list \<Rightarrow> real \<Rightarrow> ParameterConstraint" where
  "ParameterConstraint_init constraint_dict b = ParameterConstraint constraint_dict b"

definition OrderConstraint_init :: "Parameter \<Rightarrow> Parameter \<Rightarrow> error + ParameterConstraint" where
  "OrderConstraint_init lower_parameter upper_parameter =
     (case validate_constraint_parameters [lower_parameter, upper_parameter] of
        Inl e \<Rightarrow> Inl e
      | Inr _ \<Rightarrow> Inr (OrderConstraint lower_parameter upper_parameter 0))"

definition SumConstraint_init :: "Parameter list \<Rightarrow> bool \<Rightarrow> real \<Rightarrow> error + ParameterConstraint" where
  "SumConstraint_init parameters is_upper b =
     (case validate_constraint_parameters parameters of
        Inl e \<Rightarrow> Inl e
      | Inr _ \<Rightarrow>
          (let parameter_names = map name parameters in
           Inr (SumConstraint parameters is_upper parameter_names
                  (inequality_weight is_upper * b)
                  (dict_of (map (\<lambda>n. (n, inequality_weight is_upper)) parameter_names)))))"

text \<open>The properties \<^verbatim>\<open>constraint_dict\<close>, \<^verbatim>\<open>bound\<close>, \<^verbatim>\<open>op\<close> and \<^verbatim>\<open>is_upper_bound\<close>.\<close>

fun constraint_dict :: "ParameterConstraint \<Rightarrow> (string \<times> real) list" where
  "constraint_dict (ParameterConstraint d b) = d"
| "constraint_dict (OrderConstraint lo hi b) = dict_of [(name lo, 1), (name hi, - 1)]"
| "constraint_dict (SumConstraint ps u ns b d) = d"

fun bound :: "ParameterConstraint \<Rightarrow> real" where
  "bound (ParameterConstraint d b) = b"
| "bound (OrderConstraint lo hi b) = b"
| "bound (SumConstraint ps u ns b d) = b"

fun is_upper_bound :: "ParameterConstraint \<Rightarrow> error + bool" where
  "is_upper_bound (SumConstraint ps u ns b d) = Inr u"
| "is_upper_bound _ = Inl NoSuchAttribute"

fun op :: "ParameterConstraint \<Rightarrow> error + ComparisonOp" where
  "op (SumConstraint ps u ns b d) = Inr (if u then LEQ else GEQ)"
| "op _ = Inl NoSuchAttribute"

subsection \<open>check\<close>

text \<open>The first loop of \<^verbatim>\<open>check\<close>: the first name of the constraint missing from the values.\<close>

fun first_missing :: "string list \<Rightarrow> (string \<rightharpoonup> real) \<Rightarrow> string option" where
  "first_missing [] parameter_dict = None"
| "first_missing (k # ks) parameter_dict =
     (if parameter_dict k = None then Some k else first_missing ks parameter_dict)"

text \<open>Python's \<^verbatim>\<open>sum\<close>: a left fold from \<open>0\<close>.\<close>

definition py_sum :: "real list \<Rightarrow> real" where
  "py_sum xs = foldl (+) 0 xs"

definition check :: "ParameterConstraint \<Rightarrow> (string \<rightharpoonup> real) \<Rightarrow> error + bool" where
  "check c parameter_dict =
     (case first_missing (map fst (constraint_dict c)) parameter_dict of
        Some k \<Rightarrow> Inl (ParamNotPresent k)
      | None \<Rightarrow>
          (let weighted_sum =
                 py_sum (map (\<lambda>(param, weight). the (parameter_dict param) * weight)
                           (constraint_dict c))
           in Inr (weighted_sum \<le> bound c + 1 / 10 ^ 8)))"

subsection \<open>clone\<close>

fun clone :: "ParameterConstraint \<Rightarrow> error + ParameterConstraint" where
  "clone (ParameterConstraint d b) = Inr (ParameterConstraint_init d b)"
| "clone (OrderConstraint lo hi b) =
     OrderConstraint_init (parameter_clone lo) (parameter_clone hi)"
| "clone (SumConstraint ps u ns b d) =
     SumConstraint_init (map parameter_clone ps) u (inequality_weight u * b)"

section \<open>Optimization configurations (ax/core/optimization\_config.py)\<close>

subsection \<open>Metrics, objectives, outcome constraints, thresholds\<close>

text \<open>
  The classes of \<^verbatim>\<open>ax.core.metric\<close>, \<^verbatim>\<open>ax.core.objective\<close>, \<^verbatim>\<open>ax.core.outcome_constraint\<close>
  and \<^verbatim>\<open>ax.core.risk_measures\<close> are declared outside the sources at hand; they are kept
  with the attributes the validation reads. \<open>Objective m minimize\<close> is the single-metric
  objective, \<open>MultiObjective objectives\<close> lists the metric and \<^verbatim>\<open>minimize\<close> flag of each
  of its objectives, \<open>ScalarizedObjective metrics weights minimize\<close> is the weighted
  combination.
\<close>

record Metric =
  metric_name :: string
  lower_is_better :: "bool option"

datatype Objective =
    Objective Metric bool
  | MultiObjective "(Metric \<times> bool) list"
  | ScalarizedObjective "Metric list" "real list" bool

datatype OutcomeConstraint =
    OutcomeConstraint Metric ComparisonOp real bool
  | ScalarizedOutcomeConstraint "Metric list" "real list" ComparisonOp real bool

record ObjectiveThreshold =
  ot_metric :: Metric
  ot_op :: ComparisonOp
  ot_bound :: real
  ot_relative :: bool

datatype RiskMeasure = RiskMeasure string "(string \<times> real) list"

fun objective_metrics :: "Objective \<Rightarrow> Metric list" where
  "objective_metrics (Objective m mn) = [m]"
| "objective_metrics (MultiObjective objectives) = map fst objectives"
| "objective_metrics (ScalarizedObjective ms ws mn) = ms"

text \<open>The test \<^verbatim>\<open>type(objective) is MultiObjective\<close>.\<close>

fun is_MultiObjective :: "Objective \<Rightarrow> bool" where
  "is_MultiObjective (MultiObjective objectives) = True"
| "is_MultiObjective _ = False"

text \<open>
  Modelled from the spec: \<^verbatim>\<open>Objective.get_unconstrainable_metrics\<close> is not among the
  sources; the unconstrainable set is the metrics referenced by the objective.
\<close>

definition get_unconstrainable_metrics :: "Objective \<Rightarrow> Metric list" where
  "get_unconstrainable_metrics obj = objective_metrics obj"

fun is_scalarized :: "OutcomeConstraint \<Rightarrow> bool" where
  "is_scalarized (OutcomeConstraint m opr b r) = False"
| "is_scalarized (ScalarizedOutcomeConstraint ms ws opr b r) = True"

text \<open>
  Modelled from the spec: the \<^verbatim>\<open>metric\<close> accessor of the constraint classes is not among
  the sources. The scalarized variant constrains a weighted combination of metrics and
  has no single metric: asking it for one is an error.
\<close>

fun oc_metric :: "OutcomeConstraint \<Rightarrow> error + Metric" where
  "oc_metric (OutcomeConstraint m opr b r) = Inr m"
| "oc_metric (ScalarizedOutcomeConstraint ms ws opr b r) = Inl NoSingleMetric"

fun oc_op :: "OutcomeConstraint \<Rightarrow> ComparisonOp" where
  "oc_op (OutcomeConstraint m opr b r) = opr"
| "oc_op (ScalarizedOutcomeConstraint ms ws opr b r) = opr"

fun oc_bound :: "OutcomeConstraint \<Rightarrow> real" where
  "oc_bound (OutcomeConstraint m opr b r) = b"
| "oc_bound (ScalarizedOutcomeConstraint ms ws opr b r) = b"

subsection \<open>Validation of outcome constraints\<close>

text \<open>
  The comprehension \<^verbatim>\<open>[constraint.metric.name for constraint in outcome_constraints]\<close>:
  it stops at the first constraint that has no single metric.
\<close>

fun constraint_metric_names :: "OutcomeConstraint list \<Rightarrow> error + string list" where
  "constraint_metric_names [] = Inr []"
| "constraint_metric_names (c # cs) =
     (case oc_metric c of
        Inl e \<Rightarrow> Inl e
      | Inr m \<Rightarrow>
          (case constraint_metric_names cs of
             Inl e \<Rightarrow> Inl e
           | Inr ns \<Rightarrow> Inr (metric_name m # ns)))"

text \<open>
  The local \<^verbatim>\<open>get_metric_name\<close>, the key of the sort and of the grouping. It is called
  only after the comprehension above has read the metric of every constraint, so its
  second branch is never taken.
\<close>

definition get_metric_name :: "OutcomeConstraint \<Rightarrow> string" where
  "get_metric_name oc = (case oc_metric oc of Inr m \<Rightarrow> metric_name m | Inl e \<Rightarrow> [])"

text \<open>
  \<^verbatim>\<open>itertools.groupby\<close>: maximal runs of consecutive elements with equal keys, each with
  its key.
\<close>

function groupby :: "'a list \<Rightarrow> ('a \<Rightarrow> 'k) \<Rightarrow> ('k \<times> 'a list) list" where
  "groupby [] key = []"
| "groupby (x # xs) key =
     (key x, x # takeWhile (\<lambda>y. key y = key x) xs)
       # groupby (dropWhile (\<lambda>y. key y = key x) xs) key"
  by pat_completeness auto
termination
  by (relation "measure (\<lambda>(xs, key). length xs)")
    (auto simp: less_Suc_eq_le length_dropWhile_le)

text \<open>The body of the loop over the groups, for one group.\<close>

definition check_group :: "string \<times> OutcomeConstraint list \<Rightarrow> error + unit" where
  "check_group g =
     (case g of (mname, constraints) \<Rightarrow>
        (let constraints_len = length constraints in
         if constraints_len = 2 then
           (if oc_op (constraints ! 0) = oc_op (constraints ! 1)
            then Inl (DuplicateOutcomeConstraints mname)
            else
              (let lower_bound_idx = (if oc_op (constraints ! 0) = GEQ then 0 else 1 :: nat);
                   upper_bound_idx = 1 - lower_bound_idx;
                   lower_bound = oc_bound (constraints ! lower_bound_idx);
                   upper_bound = oc_bound (constraints ! upper_bound_idx)
               in if lower_bound \<ge> upper_bound
                  then Inl (LowerBoundGeqUpperBound lower_bound upper_bound mname)
                  else Inr ()))
         else if constraints_len > 2 then Inl (DuplicateOutcomeConstraints mname)
         else Inr ()))"

fun check_groups :: "(string \<times> OutcomeConstraint list) list \<Rightarrow> error + unit" where
  "check_groups [] = Inr ()"
| "check_groups (g # gs) =
     (case check_group g of Inl e \<Rightarrow> Inl e | Inr u \<Rightarrow> check_groups gs)"

definition validate_outcome_constraints ::
    "Metric list \<Rightarrow> OutcomeConstraint list \<Rightarrow> error + unit" where
  "validate_outcome_constraints unconstrainable_metrics outcome_constraints =
     (case constraint_metric_names outcome_constraints of
        Inl e \<Rightarrow> Inl e
      | Inr constraint_metrics \<Rightarrow>
          if list_ex (\<lambda>m. metric_name m \<in> set constraint_metrics) unconstrainable_metrics
          then Inl CannotConstrainObjectiveMetric
          else
            (let sorted_constraints = sort_key get_metric_name outcome_constraints
             in check_groups (groupby sorted_constraints get_metric_name)))"

subsection \<open>OptimizationConfig\<close>

text \<open>\<^verbatim>\<open>x or []\<close> for an optional list.\<close>

definition or_empty :: "'a list option \<Rightarrow> 'a list" where
  "or_empty xs = (case xs of None \<Rightarrow> [] | Some l \<Rightarrow> l)"

text \<open>\<^verbatim>\<open>OptimizationConfig._validate_transformed_optimization_config\<close>.\<close>

definition validate_transformed_optimization_config ::
    "Objective \<Rightarrow> OutcomeConstraint list option \<Rightarrow> RiskMeasure option \<Rightarrow> error + unit" where
  "validate_transformed_optimization_config obj outcome_constraints rm =
     (case obj of
        MultiObjective objectives \<Rightarrow> Inl MultiObjectiveNotSupported
      | _ \<Rightarrow>
          (let ocs = or_empty outcome_constraints;
               ocs' = filter (\<lambda>constraint. is_scalarized constraint = False) ocs;
               unconstrainable_metrics = get_unconstrainable_metrics obj
           in validate_outcome_constraints unconstrainable_metrics ocs'))"

record OptimizationConfig =
  cfg_objective :: Objective
  cfg_outcome_constraints :: "OutcomeConstraint list"
  cfg_risk_measure :: "RiskMeasure option"

definition OptimizationConfig_init ::
    "Objective \<Rightarrow> OutcomeConstraint list option \<Rightarrow> RiskMeasure option
      \<Rightarrow> error + OptimizationConfig" where
  "OptimizationConfig_init obj outcome_constraints rm =
     (let constraints = (case outcome_constraints of None \<Rightarrow> [] | Some l \<Rightarrow> l) in
      case validate_transformed_optimization_config obj (Some constraints) rm of
        Inl e \<Rightarrow> Inl e
      | Inr u \<Rightarrow>
          Inr \<lparr>cfg_objective = obj, cfg_outcome_constraints = constraints,
               cfg_risk_measure = rm\<rparr>)"

text \<open>
  The setters take the configuration and return the outcome together with the
  configuration after the call: an exception leaves the assignment below it unexecuted.
\<close>

definition set_objective ::
    "OptimizationConfig \<Rightarrow> Objective \<Rightarrow> (error + unit) \<times> OptimizationConfig" where
  "set_objective self obj =
     (case validate_transformed_optimization_config obj
             (Some (cfg_outcome_constraints self)) (cfg_risk_measure self) of
        Inl e \<Rightarrow> (Inl e, self)
      | Inr u \<Rightarrow> (Inr (), self\<lparr>cfg_objective := obj\<rparr>))"

definition set_outcome_constraints ::
    "OptimizationConfig \<Rightarrow> OutcomeConstraint list \<Rightarrow> (error + unit) \<times> OptimizationConfig" where
  "set_outcome_constraints self outcome_constraints =
     (case validate_transformed_optimization_config (cfg_objective self)
             (Some outcome_constraints) (cfg_risk_measure self) of
        Inl e \<Rightarrow> (Inl e, self)
      | Inr u \<Rightarrow> (Inr (), self\<lparr>cfg_outcome_constraints := outcome_constraints\<rparr>))"

subsection \<open>MultiObjectiveOptimizationConfig\<close>

text \<open>The dict comprehension \<^verbatim>\<open>{obj.metric.name: obj for obj in objective.objectives}\<close>.\<close>

definition objectives_by_name :: "(Metric \<times> bool) list \<Rightarrow> (string \<rightharpoonup> Metric \<times> bool)" where
  "objectives_by_name objectives =
     foldl (\<lambda>d obj. d(metric_name (fst obj) \<mapsto> obj)) Map.empty objectives"

text \<open>
  The loop of \<^verbatim>\<open>check_objective_thresholds_match_objectives\<close>, with the set
  \<^verbatim>\<open>obj_thresh_metrics\<close> of the names seen so far.
\<close>

fun check_thresholds_from ::
    "(string \<rightharpoonup> Metric \<times> bool) \<Rightarrow> string set \<Rightarrow> ObjectiveThreshold list \<Rightarrow> error + unit" where
  "check_thresholds_from by_name obj_thresh_metrics [] = Inr ()"
| "check_thresholds_from by_name obj_thresh_metrics (threshold # thresholds) =
     (let mname = metric_name (ot_metric threshold) in
      case by_name mname of
        None \<Rightarrow> Inl (ThresholdNotAmongObjectives mname)
      | Some obj \<Rightarrow>
          if mname \<in> obj_thresh_metrics then Inl (MoreThanOneThreshold mname)
          else
            (let minimize = snd obj;
                 bounded_above = (ot_op threshold = LEQ);
                 is_aligned = (minimize = bounded_above)
             in if \<not> is_aligned then Inl (ThresholdMisaligned mname bounded_above minimize)
                else check_thresholds_from by_name (insert mname obj_thresh_metrics) thresholds))"

definition check_objective_thresholds_match_objectives ::
    "(string \<rightharpoonup> Metric \<times> bool) \<Rightarrow> ObjectiveThreshold list \<Rightarrow> error + unit" where
  "check_objective_thresholds_match_objectives by_name objective_thresholds =
     check_thresholds_from by_name {} objective_thresholds"

text \<open>\<^verbatim>\<open>MultiObjectiveOptimizationConfig._validate_transformed_optimization_config\<close>.\<close>

definition moo_validate_transformed_optimization_config ::
    "Objective \<Rightarrow> OutcomeConstraint list option \<Rightarrow> ObjectiveThreshold list option
      \<Rightarrow> RiskMeasure option \<Rightarrow> error + unit" where
  "moo_validate_transformed_optimization_config obj outcome_constraints objective_thresholds rm =
     (case obj of
        Objective m mn \<Rightarrow> Inl RequiresMultiOrScalarized
      | _ \<Rightarrow>
          (let ocs = or_empty outcome_constraints;
               ots = or_empty objective_thresholds
           in case (case obj of
                      MultiObjective objectives \<Rightarrow>
                        check_objective_thresholds_match_objectives
                          (objectives_by_name objectives) ots
                    | _ \<Rightarrow> Inr ()) of
                Inl e \<Rightarrow> Inl e
              | Inr u \<Rightarrow>
                  validate_outcome_constraints (get_unconstrainable_metrics obj) ocs))"

record MultiObjectiveOptimizationConfig = OptimizationConfig +
  cfg_objective_thresholds :: "ObjectiveThreshold list"

definition MultiObjectiveOptimizationConfig_init ::
    "Objective \<Rightarrow> OutcomeConstraint list option \<Rightarrow> ObjectiveThreshold list option
      \<Rightarrow> RiskMeasure option \<Rightarrow> error + MultiObjectiveOptimizationConfig" where
  "MultiObjectiveOptimizationConfig_init obj outcome_constraints objective_thresholds rm =
     (let constraints = (case outcome_constraints of None \<Rightarrow> [] | Some l \<Rightarrow> l);
          ots = or_empty objective_thresholds
      in case moo_validate_transformed_optimization_config obj (Some constraints) (Some ots) rm of
           Inl e \<Rightarrow> Inl e
         | Inr u \<Rightarrow>
             Inr \<lparr>cfg_objective = obj, cfg_outcome_constraints = constraints,
                  cfg_risk_measure = rm, cfg_objective_thresholds = ots\<rparr>)"

definition moo_set_objective ::
    "MultiObjectiveOptimizationConfig \<Rightarrow> Objective
      \<Rightarrow> (error + unit) \<times> MultiObjectiveOptimizationConfig" where
  "moo_set_objective self obj =
     (case moo_validate_transformed_optimization_config obj
             (Some (cfg_outcome_constraints self)) (Some (cfg_objective_thresholds self))
             (cfg_risk_measure self) of
        Inl e \<Rightarrow> (Inl e, self)
      | Inr u \<Rightarrow> (Inr (), self\<lparr>cfg_objective := obj\<rparr>))"

text \<open>
  The setter of \<^verbatim>\<open>outcome_constraints\<close> is inherited; on an instance of the subclass its
  call of \<^verbatim>\<open>self._validate_transformed_optimization_config\<close> reaches the subclass's
  validation, with no thresholds passed.
\<close>

definition moo_set_outcome_constraints ::
    "MultiObjectiveOptimizationConfig \<Rightarrow> OutcomeConstraint list
      \<Rightarrow> (error + unit) \<times> MultiObjectiveOptimizationConfig" where
  "moo_set_outcome_constraints self outcome_constraints =
     (case moo_validate_transformed_optimization_config (cfg_objective self)
             (Some outcome_constraints) None (cfg_risk_measure self) of
        Inl e \<Rightarrow> (Inl e, self)
      | Inr u \<Rightarrow> (Inr (), self\<lparr>cfg_outcome_constraints := outcome_constraints\<rparr>))"

definition moo_set_objective_thresholds ::
    "MultiObjectiveOptimizationConfig \<Rightarrow> ObjectiveThreshold list
      \<Rightarrow> (error + unit) \<times> MultiObjectiveOptimizationConfig" where
  "moo_set_objective_thresholds self objective_thresholds =
     (case moo_validate_transformed_optimization_config (cfg_objective self)
             None (Some objective_thresholds) (cfg_risk_measure self) of
        Inl e \<Rightarrow> (Inl e, self)
      | Inr u \<Rightarrow> (Inr (), self\<lparr>cfg_objective_thresholds := objective_thresholds\<rparr>))"

subsection \<open>The rule for a group of constraints, as the specification words it\<close>

text \<open>
  A group of one constraint is fine; a group of two must have different operators, with
  the bound of the \<open>GEQ\<close> constraint strictly below the bound of the \<open>LEQ\<close> constraint;
  a group of more than two is an error.
\<close>

definition spec_group_accepted :: "OutcomeConstraint list \<Rightarrow> bool" where
  "spec_group_accepted constraints \<longleftrightarrow>
     length constraints \<le> 2 \<and>
     (length constraints = 2 \<longrightarrow>
        oc_op (constraints ! 0) \<noteq> oc_op (constraints ! 1) \<and>
        (\<forall>lo\<in>set constraints. \<forall>hi\<in>set constraints.
           oc_op lo = GEQ \<and> oc_op hi = LEQ \<longrightarrow> oc_bound lo < oc_bound hi))"

subsection \<open>The rule for objective thresholds, as the specification words it\<close>

text \<open>
  Every threshold is on a metric of the objective, no two thresholds are on the same
  metric, and a threshold bounds from above (\<open>LEQ\<close>) exactly when the objective of its
  metric is minimized. The objective of a metric name is the one the code looks up under
  that name.
\<close>

definition spec_thresholds_accepted ::
    "(Metric \<times> bool) list \<Rightarrow> ObjectiveThreshold list \<Rightarrow> bool" where
  "spec_thresholds_accepted objectives ots \<longleftrightarrow>
     (\<forall>t\<in>set ots. metric_name (ot_metric t) \<in> metric_name ` fst ` set objectives) \<and>
     distinct (map (\<lambda>t. metric_name (ot_metric t)) ots) \<and>
     (\<forall>t\<in>set ots.
        case objectives_by_name objectives (metric_name (ot_metric t)) of
          None \<Rightarrow> True
        | Some obj \<Rightarrow> (ot_op t = LEQ) = snd obj)"

subsection \<open>Valid configurations and atomic operations\<close>

text \<open>A configuration is valid when the full validation of its stored fields passes.\<close>

definition valid_config :: "OptimizationConfig \<Rightarrow> bool" where
  "valid_config cfg \<longleftrightarrow>
     validate_transformed_optimization_config (cfg_objective cfg)
       (Some (cfg_outcome_constraints cfg)) (cfg_risk_measure cfg) = Inr ()"

definition moo_valid_config :: "MultiObjectiveOptimizationConfig \<Rightarrow> bool" where
  "moo_valid_config cfg \<longleftrightarrow>
     moo_validate_transformed_optimization_config (cfg_objective cfg)
       (Some (cfg_outcome_constraints cfg)) (Some (cfg_objective_thresholds cfg))
       (cfg_risk_measure cfg) = Inr ()"

text \<open>
  An operation on the configuration \<open>old\<close> that is to produce \<open>new\<close> is atomic when it
  either succeeds and leaves \<open>new\<close>, which happens exactly when \<open>new\<close> is \<open>accepted\<close>, or
  raises and leaves \<open>old\<close>.
\<close>

definition spec_atomic :: "(error + unit) \<times> 'cfg \<Rightarrow> 'cfg \<Rightarrow> 'cfg \<Rightarrow> bool \<Rightarrow> bool" where
  "spec_atomic outcome old new accepted \<longleftrightarrow>
     (if accepted then outcome = (Inr (), new) else isl (fst outcome) \<and> snd outcome = old)"

section \<open>The quasi-random generator (ax/generators/random/sobol.py)\<close>

text \<open>
  Only the tests of the generator are among the sources. The sequence itself is a
  pluggable back-end: \<open>engine seed position\<close> is the point the seeded sequence yields at
  a position.
\<close>

datatype gen_error = SearchSpaceExhausted

text \<open>
  Modelled from the spec: the state of \<^verbatim>\<open>SobolGenerator\<close>, which is not among the sources;
  an explicit seed and a position in the sequence.
\<close>

record SobolGenerator =
  seed :: nat
  init_position :: nat

text \<open>
  Modelled from the spec: the constructor of \<^verbatim>\<open>SobolGenerator\<close>, which is not among the
  sources; a generator is instantiated with a seed at a saved position.
\<close>

definition SobolGenerator_init :: "nat \<Rightarrow> nat \<Rightarrow> SobolGenerator" where
  "SobolGenerator_init s position = \<lparr>seed = s, init_position = position\<rparr>"

text \<open>
  Modelled from the spec: rejection sampling, which is not among the sources. Points
  are drawn from the sequence one position after the other; a drawn point is kept when
  \<open>accept\<close> admits it next to the points generated so far (bounds, linear constraints,
  fixed features, duplicates: whatever the caller's arguments demand). At most \<open>draws\<close>
  points are drawn; running out of draws before \<open>n\<close> points are kept is the condition
  \<open>search space exhausted\<close>, instead of looping forever. The result is the points kept
  and the position after the last draw.
\<close>

fun rejection_sample ::
    "(nat \<Rightarrow> 'p) \<Rightarrow> ('p list \<Rightarrow> 'p \<Rightarrow> bool) \<Rightarrow> nat \<Rightarrow> nat \<Rightarrow> nat \<Rightarrow> 'p list
      \<Rightarrow> gen_error + 'p list \<times> nat" where
  "rejection_sample sequence accept draws 0 position generated = Inr ([], position)"
| "rejection_sample sequence accept 0 (Suc n) position generated = Inl SearchSpaceExhausted"
| "rejection_sample sequence accept (Suc draws) (Suc n) position generated =
     (let p = sequence position in
      if accept generated p then
        (case rejection_sample sequence accept draws n (Suc position) (generated @ [p]) of
           Inl e \<Rightarrow> Inl e
         | Inr (ps, position') \<Rightarrow> Inr (p # ps, position'))
      else rejection_sample sequence accept draws (Suc n) (Suc position) generated)"

text \<open>
  Modelled from the spec: \<^verbatim>\<open>SobolGenerator.gen\<close>, which is not among the sources. A call
  generates \<open>n\<close> points from the generator's seed and position, given the points already
  generated, and leaves the generator at the position it reached; \<open>max_rs_draws\<close> bounds
  the draws of the call.
\<close>

definition gen ::
    "(nat \<Rightarrow> nat \<Rightarrow> 'p) \<Rightarrow> SobolGenerator \<Rightarrow> nat \<Rightarrow> ('p list \<Rightarrow> 'p \<Rightarrow> bool) \<Rightarrow> 'p list \<Rightarrow> nat
      \<Rightarrow> (gen_error + 'p list) \<times> SobolGenerator" where
  "gen engine self n accept generated_points max_rs_draws =
     (case rejection_sample (engine (seed self)) accept max_rs_draws n (init_position self)
             generated_points of
        Inl e \<Rightarrow> (Inl e, self)
      | Inr (points, position) \<Rightarrow> (Inr points, self\<lparr>init_position := position\<rparr>))"

section \<open>Properties of parameter constraints\<close>

lemma first_missing_None: "first_missing ks pd = None \<longleftrightarrow> set ks \<subseteq> dom pd"
  by (induction ks) auto

lemma first_missing_Some: "first_missing ks pd = Some k \<Longrightarrow> k \<in> set ks \<and> k \<notin> dom pd"
  by (induction ks) (auto split: if_splits)

lemma foldl_add_real: "foldl (+) (a::real) xs = a + sum_list xs"
  by (induction xs arbitrary: a) auto

lemma py_sum_sum_list: "py_sum xs = sum_list xs"
  by (simp add: py_sum_def foldl_add_real)

lemma inequality_weight_square: "inequality_weight u * (inequality_weight u * b) = b"
  by (simp add: inequality_weight_def)

lemma map_parameter_clone: "map parameter_clone ps = ps"
  by (induction ps) (simp_all add: parameter_clone_def)

lemma dict_set_fresh: "k \<notin> fst ` set d \<Longrightarrow> dict_set k v d = d @ [(k, v)]"
  by (induction d) auto

lemma foldl_dict_set_distinct:
  "distinct (map fst kvs) \<Longrightarrow> fst ` set d \<inter> fst ` set kvs = {} \<Longrightarrow>
   foldl (\<lambda>d (k, v). dict_set k v d) d kvs = d @ kvs"
proof (induction kvs arbitrary: d)
  case Nil
  then show ?case by simp
next
  case (Cons kv kvs)
  obtain k v where kv: "kv = (k, v)" by (cases kv)
  from Cons.prems kv have fresh: "k \<notin> fst ` set d" by auto
  have "foldl (\<lambda>d (k, v). dict_set k v d) (d @ [(k, v)]) kvs = (d @ [(k, v)]) @ kvs"
    using Cons.prems kv by (intro Cons.IH) auto
  with fresh kv show ?case by (simp add: dict_set_fresh)
qed

lemma dict_of_distinct: "distinct (map fst kvs) \<Longrightarrow> dict_of kvs = kvs"
  using foldl_dict_set_distinct [of kvs "[]"] by (simp add: dict_of_def)

lemma validate_constraint_parameters_distinct:
  "validate_constraint_parameters ps = Inr u \<Longrightarrow> distinct (map name ps)"
  by (auto simp: validate_constraint_parameters_def card_distinct split: if_splits)

lemma SumConstraint_init_example:
  "SumConstraint_init [RangeParameter ''x1'' 0 1 False, RangeParameter ''x2'' 0 1 False] False 3
   = Inr (SumConstraint [RangeParameter ''x1'' 0 1 False, RangeParameter ''x2'' 0 1 False] False
            [''x1'', ''x2''] (- 3) [(''x1'', - 1), (''x2'', - 1)])"
  by (simp add: SumConstraint_init_def validate_constraint_parameters_def
      inequality_weight_def dict_of_def Let_def)

text \<open>
  C6. \<^verbatim>\<open>check\<close>: when the supplied values cover every name of the constraint, the result
  is whether the weighted sum of the values is at most the bound plus \<open>1e-8\<close>; when a name
  is missing, a \<^verbatim>\<open>ValueError\<close> about a missing name is raised. For the order constraint
  \<open>x1 \<le> x2\<close> (x1 in [0.1, 0.2], x2 in [1, 2]) the values x1 = 0.15, x2 = 1.5 pass and
  x1 = 1.9, x2 = 1.5 fail.
\<close>

theorem check_weighted_sum:
  "(fst ` set (constraint_dict c) \<subseteq> dom pd \<longrightarrow>
      check c pd = Inr ((\<Sum>(p, w) \<leftarrow> constraint_dict c. the (pd p) * w) \<le> bound c + 1 / 10 ^ 8))
   \<and> (\<not> fst ` set (constraint_dict c) \<subseteq> dom pd \<longrightarrow>
      (\<exists>k. k \<in> fst ` set (constraint_dict c) \<and> k \<notin> dom pd \<and> check c pd = Inl (ParamNotPresent k)
           \<and> error_class (ParamNotPresent k) = ValueError))
   \<and> (\<exists>oc. OrderConstraint_init (RangeParameter ''x1'' (1 / 10) (2 / 10) False)
                (RangeParameter ''x2'' 1 2 False) = Inr oc
         \<and> check oc [''x1'' \<mapsto> 15 / 100, ''x2'' \<mapsto> 15 / 10] = Inr True
         \<and> check oc [''x1'' \<mapsto> 19 / 10, ''x2'' \<mapsto> 15 / 10] = Inr False)"
proof (intro conjI)
  show "fst ` set (constraint_dict c) \<subseteq> dom pd \<longrightarrow>
      check c pd = Inr ((\<Sum>(p, w) \<leftarrow> constraint_dict c. the (pd p) * w) \<le> bound c + 1 / 10 ^ 8)"
  proof
    assume "fst ` set (constraint_dict c) \<subseteq> dom pd"
    then have "first_missing (map fst (constraint_dict c)) pd = None"
      by (simp add: first_missing_None)
    then show "check c pd
        = Inr ((\<Sum>(p, w) \<leftarrow> constraint_dict c. the (pd p) * w) \<le> bound c + 1 / 10 ^ 8)"
      by (simp add: check_def py_sum_sum_list)
  qed
next
  show "\<not> fst ` set (constraint_dict c) \<subseteq> dom pd \<longrightarrow>
      (\<exists>k. k \<in> fst ` set (constraint_dict c) \<and> k \<notin> dom pd \<and> check c pd = Inl (ParamNotPresent k)
           \<and> error_class (ParamNotPresent k) = ValueError)"
  proof
    assume "\<not> fst ` set (constraint_dict c) \<subseteq> dom pd"
    then obtain k where some: "first_missing (map fst (constraint_dict c)) pd = Some k"
      using first_missing_None [of "map fst (constraint_dict c)" pd] by auto
    from first_missing_Some [OF some]
    have "k \<in> fst ` set (constraint_dict c)" "k \<notin> dom pd"
      by simp_all
    with some show "\<exists>k. k \<in> fst ` set (constraint_dict c) \<and> k \<notin> dom pd
        \<and> check c pd = Inl (ParamNotPresent k) \<and> error_class (ParamNotPresent k) = ValueError"
      by (auto simp: check_def)
  qed
next
  show "\<exists>oc. OrderConstraint_init (RangeParameter ''x1'' (1 / 10) (2 / 10) False)
                (RangeParameter ''x2'' 1 2 False) = Inr oc
         \<and> check oc [''x1'' \<mapsto> 15 / 100, ''x2'' \<mapsto> 15 / 10] = Inr True
         \<and> check oc [''x1'' \<mapsto> 19 / 10, ''x2'' \<mapsto> 15 / 10] = Inr False"
    by (simp add: OrderConstraint_init_def validate_constraint_parameters_def check_def
        dict_of_def py_sum_def)
qed

theorem check_weighted_sum_witness:
  "check (OrderConstraint (RangeParameter ''x1'' (1 / 10) (2 / 10) False)
            (RangeParameter ''x2'' 1 2 False) 0) [''x1'' \<mapsto> 15 / 100, ''x2'' \<mapsto> 15 / 10] = Inr True
   \<and> check (OrderConstraint (RangeParameter ''x1'' (1 / 10) (2 / 10) False)
            (RangeParameter ''x2'' 1 2 False) 0) [''x1'' \<mapsto> 15 / 100] = Inl (ParamNotPresent ''x2'')"
  using check_weighted_sum [of "OrderConstraint (RangeParameter ''x1'' (1 / 10) (2 / 10) False)
            (RangeParameter ''x2'' 1 2 False) 0" "[''x1'' \<mapsto> 15 / 100, ''x2'' \<mapsto> 15 / 10]"]
    check_weighted_sum [of "OrderConstraint (RangeParameter ''x1'' (1 / 10) (2 / 10) False)
            (RangeParameter ''x2'' 1 2 False) 0" "[''x1'' \<mapsto> 15 / 100]"]
  by (auto simp: dict_of_def)

text \<open>
  C7. The sign round trip of \<^verbatim>\<open>SumConstraint.clone\<close>: the clone of a constructed sum
  constraint is constructed without error and has the same stored bound and the same
  \<^verbatim>\<open>is_upper_bound\<close> flag (hence the same \<^verbatim>\<open>op\<close> and the same weights) as the original.
\<close>

theorem SumConstraint_clone_round_trip:
  assumes "SumConstraint_init parameters is_upper b = Inr c"
  shows "\<exists>c'. clone c = Inr c' \<and> bound c' = bound c \<and> is_upper_bound c' = is_upper_bound c
            \<and> is_upper_bound c' = Inr is_upper \<and> op c' = op c
            \<and> constraint_dict c' = constraint_dict c"
proof -
  from assms have ok: "validate_constraint_parameters parameters = Inr ()"
    by (auto simp: SumConstraint_init_def split: sum.splits)
  with assms have "clone c = Inr c"
    by (auto simp: SumConstraint_init_def Let_def map_parameter_clone inequality_weight_square)
  moreover from assms ok have "is_upper_bound c = Inr is_upper"
    by (auto simp: SumConstraint_init_def Let_def)
  ultimately show ?thesis by simp
qed

theorem SumConstraint_clone_round_trip_witness:
  "SumConstraint_init [RangeParameter ''x1'' 0 1 False, RangeParameter ''x2'' 0 1 False] False 3
     = Inr (SumConstraint [RangeParameter ''x1'' 0 1 False, RangeParameter ''x2'' 0 1 False] False
            [''x1'', ''x2''] (- 3) [(''x1'', - 1), (''x2'', - 1)])
   \<and> (\<exists>c'. clone (SumConstraint [RangeParameter ''x1'' 0 1 False, RangeParameter ''x2'' 0 1 False]
                   False [''x1'', ''x2''] (- 3) [(''x1'', - 1), (''x2'', - 1)]) = Inr c'
          \<and> bound c' = - 3 \<and> is_upper_bound c' = Inr False)"
  using SumConstraint_clone_round_trip [OF SumConstraint_init_example] SumConstraint_init_example
  by auto

text \<open>
  C8, as the code has it. A sum constraint is stored in \<open>\<le>\<close> form: the weights and the
  stored bound are the user's, multiplied by \<open>+1\<close> for an upper bound and by \<open>-1\<close> for a
  lower bound. \<^verbatim>\<open>op\<close> re-derives the user's direction from the stored flag (\<open>LEQ\<close> for an
  upper bound, \<open>GEQ\<close> for a lower bound). \<^verbatim>\<open>bound\<close> returns the stored bound, which is the
  user's bound times the sign; the user's bound is the sign times \<^verbatim>\<open>bound\<close>.
\<close>

theorem SumConstraint_stored_form:
  assumes "SumConstraint_init parameters is_upper b = Inr c"
  shows "op c = Inr (if is_upper then LEQ else GEQ)
       \<and> bound c = (if is_upper then 1 else - 1) * b
       \<and> constraint_dict c = map (\<lambda>p. (name p, if is_upper then 1 else - 1)) parameters
       \<and> (if is_upper then 1 else - 1) * bound c = b"
proof -
  from assms obtain u where ok: "validate_constraint_parameters parameters = Inr u"
    by (auto simp: SumConstraint_init_def split: sum.splits)
  then have "distinct (map name parameters)"
    by (rule validate_constraint_parameters_distinct)
  then have "dict_of (map (\<lambda>n. (n, inequality_weight is_upper)) (map name parameters))
           = map (\<lambda>n. (n, inequality_weight is_upper)) (map name parameters)"
    by (intro dict_of_distinct) (simp add: comp_def)
  with assms ok show ?thesis
    by (auto simp: SumConstraint_init_def Let_def inequality_weight_def comp_def)
qed

theorem SumConstraint_stored_form_witness:
  "SumConstraint_init [RangeParameter ''x1'' 0 1 False, RangeParameter ''x2'' 0 1 False] False 3
     = Inr (SumConstraint [RangeParameter ''x1'' 0 1 False, RangeParameter ''x2'' 0 1 False] False
            [''x1'', ''x2''] (- 3) [(''x1'', - 1), (''x2'', - 1)])
   \<and> op (SumConstraint [RangeParameter ''x1'' 0 1 False, RangeParameter ''x2'' 0 1 False] False
            [''x1'', ''x2''] (- 3) [(''x1'', - 1), (''x2'', - 1)]) = Inr GEQ
   \<and> bound (SumConstraint [RangeParameter ''x1'' 0 1 False, RangeParameter ''x2'' 0 1 False] False
            [''x1'', ''x2''] (- 3) [(''x1'', - 1), (''x2'', - 1)]) = - 3"
  using SumConstraint_stored_form [OF SumConstraint_init_example] SumConstraint_init_example
  by simp

text \<open>
  The claim as first stated has \<^verbatim>\<open>bound\<close> return the bound the user supplied. For a lower
  bound of \<open>3\<close> on \<open>x1 + x2\<close> the accessor returns \<open>-3\<close>.
\<close>

theorem SumConstraint_bound_counterexample:
  "map_sum id bound
     (SumConstraint_init [RangeParameter ''x1'' 0 1 False, RangeParameter ''x2'' 0 1 False] False 3)
   = Inr (- 3) \<and> (- 3 :: real) \<noteq> 3"
  by (simp add: SumConstraint_init_def validate_constraint_parameters_def
      inequality_weight_def dict_of_def Let_def)

section \<open>Properties of the validation of outcome constraints\<close>

subsection \<open>Sorting and grouping\<close>

lemma sorted_key_prefix:
  "sorted (map key (x # xs)) \<Longrightarrow>
     takeWhile (\<lambda>y. key y = key x) xs = filter (\<lambda>y. key y = key x) xs
   \<and> dropWhile (\<lambda>y. key y = key x) xs = filter (\<lambda>y. key y \<noteq> key x) xs"
proof (induction xs)
  case Nil
  then show ?case by simp
next
  case (Cons y ys)
  show ?case
  proof (cases "key y = key x")
    case True
    from Cons.prems have "sorted (map key (x # ys))" by simp
    with Cons.IH True show ?thesis by simp
  next
    case False
    from Cons.prems False have "\<forall>z\<in>set ys. key z \<noteq> key x"
      by (auto simp: order.strict_iff_order)
    with False show ?thesis
      by (simp add: filter_empty_conv filter_id_conv)
  qed
qed

lemma groupby_sorted:
  "sorted (map key xs) \<Longrightarrow>
   set (groupby xs key) = (\<lambda>k. (k, filter (\<lambda>y. key y = k) xs)) ` key ` set xs"
proof (induction xs key rule: groupby.induct)
  case (1 key)
  then show ?case by simp
next
  case (2 x xs key)
  let ?P = "\<lambda>y. key y = key x"
  let ?rest = "filter (\<lambda>y. key y \<noteq> key x) xs"
  from sorted_key_prefix [OF "2.prems"]
  have tw: "takeWhile ?P xs = filter ?P xs" and dw: "dropWhile ?P xs = ?rest"
    by simp_all
  from "2.prems" have "sorted (map key xs)" by simp
  then have "sorted (map key ?rest)" by (rule sorted_filter)
  with "2.IH" dw
  have IH: "set (groupby ?rest key) = (\<lambda>k. (k, filter (\<lambda>y. key y = k) ?rest)) ` key ` set ?rest"
    by simp
  have same: "filter (\<lambda>y. key y = k) ?rest = filter (\<lambda>y. key y = k) (x # xs)" if "k \<noteq> key x" for k
    using that by (auto intro: filter_cong)
  have "set (groupby (x # xs) key)
      = insert (key x, filter ?P (x # xs)) (set (groupby ?rest key))"
    by (simp add: tw dw)
  also have "\<dots> = insert (key x, filter ?P (x # xs))
      ((\<lambda>k. (k, filter (\<lambda>y. key y = k) (x # xs))) ` key ` set ?rest)"
    unfolding IH using same by (intro arg_cong2 [where f = insert] refl image_cong) auto
  also have "\<dots> = (\<lambda>k. (k, filter (\<lambda>y. key y = k) (x # xs))) ` insert (key x) (key ` set ?rest)"
    by (simp only: image_insert)
  also have "insert (key x) (key ` set ?rest) = key ` set (x # xs)"
    by auto
  finally show ?case .
qed

lemma check_groups_ok: "check_groups gs = Inr () \<longleftrightarrow> (\<forall>g\<in>set gs. check_group g = Inr ())"
  by (induction gs) (auto split: sum.splits)

lemma sort_group:
  "set (groupby (sort_key key xs) key) = (\<lambda>k. (k, filter (\<lambda>y. key y = k) xs)) ` key ` set xs"
  using groupby_sorted [of key "sort_key key xs"] by (simp add: sort_key_stable)

lemma constraint_metric_names_plain:
  "\<forall>c\<in>set ocs. \<not> is_scalarized c \<Longrightarrow>
   constraint_metric_names ocs = Inr (map get_metric_name ocs)"
proof (induction ocs)
  case Nil
  then show ?case by simp
next
  case (Cons c cs)
  then show ?case by (cases c) (simp_all add: get_metric_name_def)
qed

lemma constraint_metric_names_scalarized:
  "\<exists>c\<in>set ocs. is_scalarized c \<Longrightarrow> constraint_metric_names ocs = Inl NoSingleMetric"
proof (induction ocs)
  case Nil
  then show ?case by simp
next
  case (Cons c cs)
  then show ?case by (cases c) (auto split: sum.splits)
qed

lemma check_group_spec: "check_group (n, constraints) = Inr () \<longleftrightarrow> spec_group_accepted constraints"
proof (cases "length constraints = 2")
  case True
  then obtain a b where g: "constraints = [a, b]"
    by (cases constraints; cases "tl constraints") auto
  show ?thesis
    unfolding g check_group_def spec_group_accepted_def
    by (cases "oc_op a"; cases "oc_op b") (auto simp: Let_def not_le)
next
  case False
  then show ?thesis
    by (auto simp: check_group_def spec_group_accepted_def Let_def)
qed

lemma validate_outcome_constraints_plain:
  assumes "\<forall>c\<in>set ocs. \<not> is_scalarized c"
  shows "validate_outcome_constraints um ocs = Inr () \<longleftrightarrow>
     (\<forall>m\<in>set um. \<forall>c\<in>set ocs. get_metric_name c \<noteq> metric_name m) \<and>
     (\<forall>k\<in>get_metric_name ` set ocs.
        spec_group_accepted (filter (\<lambda>c. get_metric_name c = k) ocs))"
proof -
  have groups: "check_groups (groupby (sort_key get_metric_name ocs) get_metric_name) = Inr ()
      \<longleftrightarrow> (\<forall>k\<in>get_metric_name ` set ocs.
             spec_group_accepted (filter (\<lambda>c. get_metric_name c = k) ocs))"
    unfolding check_groups_ok sort_group by (simp add: check_group_spec)
  have "list_ex (\<lambda>m. metric_name m \<in> set (map get_metric_name ocs)) um
      \<longleftrightarrow> \<not> (\<forall>m\<in>set um. \<forall>c\<in>set ocs. get_metric_name c \<noteq> metric_name m)"
    unfolding list_ex_iff set_map image_iff by metis
  with groups show ?thesis
    unfolding validate_outcome_constraints_def constraint_metric_names_plain [OF assms]
    by (simp add: Let_def)
qed

lemma validate_transformed_optimization_config_iff:
  "validate_transformed_optimization_config obj (Some ocs) rm = Inr () \<longleftrightarrow>
     \<not> is_MultiObjective obj \<and>
     (\<forall>m\<in>set (get_unconstrainable_metrics obj). \<forall>c\<in>set ocs.
        \<not> is_scalarized c \<longrightarrow> get_metric_name c \<noteq> metric_name m) \<and>
     (\<forall>c0\<in>set ocs. \<not> is_scalarized c0 \<longrightarrow>
        spec_group_accepted
          (filter (\<lambda>c. \<not> is_scalarized c \<and> get_metric_name c = get_metric_name c0) ocs))"
proof (cases "is_MultiObjective obj")
  case True
  then show ?thesis
    by (cases obj) (simp_all add: validate_transformed_optimization_config_def)
next
  case False
  define plain where "plain = filter (\<lambda>c. is_scalarized c = False) ocs"
  have all_plain: "\<forall>c\<in>set plain. \<not> is_scalarized c"
    by (simp add: plain_def)
  have constraints: "filter (\<lambda>c. get_metric_name c = k) plain
      = filter (\<lambda>c. \<not> is_scalarized c \<and> get_metric_name c = k) ocs" for k
    by (simp add: plain_def conj_commute cong: conj_cong)
  have set_plain: "set plain = {c \<in> set ocs. \<not> is_scalarized c}"
    by (simp add: plain_def)
  from False have "validate_transformed_optimization_config obj (Some ocs) rm
      = validate_outcome_constraints (get_unconstrainable_metrics obj) plain"
    by (cases obj)
      (simp_all add: validate_transformed_optimization_config_def or_empty_def plain_def)
  then have "validate_transformed_optimization_config obj (Some ocs) rm = Inr () \<longleftrightarrow>
     (\<forall>m\<in>set (get_unconstrainable_metrics obj). \<forall>c\<in>set plain.
        get_metric_name c \<noteq> metric_name m) \<and>
     (\<forall>k\<in>get_metric_name ` set plain.
        spec_group_accepted (filter (\<lambda>c. get_metric_name c = k) plain))"
    by (simp only: validate_outcome_constraints_plain [OF all_plain])
  also have "\<dots> \<longleftrightarrow>
     (\<forall>m\<in>set (get_unconstrainable_metrics obj). \<forall>c\<in>set ocs.
        \<not> is_scalarized c \<longrightarrow> get_metric_name c \<noteq> metric_name m) \<and>
     (\<forall>c0\<in>set ocs. \<not> is_scalarized c0 \<longrightarrow>
        spec_group_accepted
          (filter (\<lambda>c. \<not> is_scalarized c \<and> get_metric_name c = get_metric_name c0) ocs))"
    unfolding constraints set_plain by auto
  finally show ?thesis using False by simp
qed

lemma OptimizationConfig_init_accepts:
  "\<not> isl (OptimizationConfig_init obj (Some ocs) rm)
   \<longleftrightarrow> validate_transformed_optimization_config obj (Some ocs) rm = Inr ()"
  by (auto simp: OptimizationConfig_init_def split: sum.splits)

lemma set_outcome_constraints_accepts:
  "fst (set_outcome_constraints self ocs) = Inr ()
   \<longleftrightarrow> validate_transformed_optimization_config (cfg_objective self) (Some ocs) (cfg_risk_measure self) = Inr ()"
  by (auto simp: set_outcome_constraints_def split: sum.splits)

text \<open>
  C1. The groups of the constraints by metric name: the check of one group accepts it
  exactly when the group is of one constraint, or of two with different operators and
  the \<open>GEQ\<close> bound strictly below the \<open>LEQ\<close> bound; more than two are refused. The
  constructor and the setter of \<^verbatim>\<open>outcome_constraints\<close> accept a list exactly when the
  objective passes the type guard, no constraint with a metric of its own is on a metric
  of the objective, and every group of such constraints is accepted by that rule.
\<close>

theorem outcome_constraint_groups:
  "(check_group (n, constraints) = Inr () \<longleftrightarrow> spec_group_accepted constraints)
   \<and> (\<not> isl (OptimizationConfig_init obj (Some ocs) rm) \<longleftrightarrow>
        \<not> is_MultiObjective obj \<and>
        (\<forall>m\<in>set (get_unconstrainable_metrics obj). \<forall>c\<in>set ocs.
           \<not> is_scalarized c \<longrightarrow> get_metric_name c \<noteq> metric_name m) \<and>
        (\<forall>c0\<in>set ocs. \<not> is_scalarized c0 \<longrightarrow>
           spec_group_accepted
             (filter (\<lambda>c. \<not> is_scalarized c \<and> get_metric_name c = get_metric_name c0) ocs)))
   \<and> (fst (set_outcome_constraints self ocs) = Inr () \<longleftrightarrow>
        \<not> is_MultiObjective (cfg_objective self) \<and>
        (\<forall>m\<in>set (get_unconstrainable_metrics (cfg_objective self)). \<forall>c\<in>set ocs.
           \<not> is_scalarized c \<longrightarrow> get_metric_name c \<noteq> metric_name m) \<and>
        (\<forall>c0\<in>set ocs. \<not> is_scalarized c0 \<longrightarrow>
           spec_group_accepted
             (filter (\<lambda>c. \<not> is_scalarized c \<and> get_metric_name c = get_metric_name c0) ocs)))"
  unfolding OptimizationConfig_init_accepts set_outcome_constraints_accepts
    validate_transformed_optimization_config_iff check_group_spec
  by simp

theorem outcome_constraint_groups_witness:
  "\<not> isl (OptimizationConfig_init (Objective \<lparr>metric_name = ''foo'', lower_is_better = None\<rparr> True)
       (Some [OutcomeConstraint \<lparr>metric_name = ''bar'', lower_is_better = None\<rparr> LEQ 2 False,
              OutcomeConstraint \<lparr>metric_name = ''baz'', lower_is_better = None\<rparr> LEQ 0 False,
              OutcomeConstraint \<lparr>metric_name = ''bar'', lower_is_better = None\<rparr> GEQ 1 False]) None)
   \<and> isl (OptimizationConfig_init (Objective \<lparr>metric_name = ''foo'', lower_is_better = None\<rparr> True)
       (Some [OutcomeConstraint \<lparr>metric_name = ''bar'', lower_is_better = None\<rparr> LEQ 1 False,
              OutcomeConstraint \<lparr>metric_name = ''bar'', lower_is_better = None\<rparr> GEQ 2 False]) None)"
  using outcome_constraint_groups [of "[]" "[]"
       "Objective \<lparr>metric_name = ''foo'', lower_is_better = None\<rparr> True"
       "[OutcomeConstraint \<lparr>metric_name = ''bar'', lower_is_better = None\<rparr> LEQ 2 False,
         OutcomeConstraint \<lparr>metric_name = ''baz'', lower_is_better = None\<rparr> LEQ 0 False,
         OutcomeConstraint \<lparr>metric_name = ''bar'', lower_is_better = None\<rparr> GEQ 1 False]"
       None
       "\<lparr>cfg_objective = Objective \<lparr>metric_name = ''foo'', lower_is_better = None\<rparr> True,
         cfg_outcome_constraints = [], cfg_risk_measure = None\<rparr>"]
    outcome_constraint_groups [of "[]" "[]"
       "Objective \<lparr>metric_name = ''foo'', lower_is_better = None\<rparr> True"
       "[OutcomeConstraint \<lparr>metric_name = ''bar'', lower_is_better = None\<rparr> LEQ 1 False,
         OutcomeConstraint \<lparr>metric_name = ''bar'', lower_is_better = None\<rparr> GEQ 2 False]"
       None
       "\<lparr>cfg_objective = Objective \<lparr>metric_name = ''foo'', lower_is_better = None\<rparr> True,
         cfg_outcome_constraints = [], cfg_risk_measure = None\<rparr>"]
  by (simp add: spec_group_accepted_def get_metric_name_def get_unconstrainable_metrics_def)

subsection \<open>Constraints on a metric of the objective\<close>

lemma constraint_metric_names_member:
  "constraint_metric_names ocs = Inr ns \<Longrightarrow> c \<in> set ocs \<Longrightarrow> oc_metric c = Inr m
   \<Longrightarrow> metric_name m \<in> set ns"
  by (induction ocs arbitrary: ns) (auto split: sum.splits)

lemma validate_outcome_constraints_objective_metric:
  assumes plain: "\<forall>c\<in>set ocs. \<not> is_scalarized c"
    and c: "c \<in> set ocs" "oc_metric c = Inr m" "metric_name m \<in> metric_name ` set um"
  shows "validate_outcome_constraints um ocs = Inl CannotConstrainObjectiveMetric"
proof -
  have names: "constraint_metric_names ocs = Inr (map get_metric_name ocs)"
    using plain by (rule constraint_metric_names_plain)
  from constraint_metric_names_member [OF names c(1,2)] c(3)
  have "list_ex (\<lambda>m. metric_name m \<in> set (map get_metric_name ocs)) um"
    unfolding list_ex_iff set_map image_iff by metis
  with names show ?thesis
    by (simp add: validate_outcome_constraints_def)
qed

lemma validate_transformed_objective_metric:
  assumes "\<not> is_MultiObjective obj"
    and "c \<in> set ocs" "oc_metric c = Inr m"
    and "metric_name m \<in> metric_name ` set (objective_metrics obj)"
  shows "validate_transformed_optimization_config obj (Some ocs) rm
         = Inl CannotConstrainObjectiveMetric"
proof -
  let ?plain = "filter (\<lambda>c. is_scalarized c = False) ocs"
  from assms(3) have "\<not> is_scalarized c" by (cases c) simp_all
  with assms(2) have mem: "c \<in> set ?plain" by simp
  have plain: "\<forall>c\<in>set ?plain. \<not> is_scalarized c" by simp
  from assms(4) have um: "metric_name m \<in> metric_name ` set (get_unconstrainable_metrics obj)"
    by (simp add: get_unconstrainable_metrics_def)
  have "validate_outcome_constraints (get_unconstrainable_metrics obj) ?plain
      = Inl CannotConstrainObjectiveMetric"
    using plain mem assms(3) um by (rule validate_outcome_constraints_objective_metric)
  with assms(1) show ?thesis
    by (cases obj)
      (simp_all add: validate_transformed_optimization_config_def or_empty_def)
qed

text \<open>
  C2, as the code has it. For an objective that passes the type guard (any objective
  that is not a \<^verbatim>\<open>MultiObjective\<close>), the constructor and both setters raise
  \<open>Cannot constrain on objective metric.\<close> whenever some outcome constraint with a metric
  of its own is on a metric referenced by the objective, and the configuration is left as
  it was. A single-objective configuration on \<open>foo\<close> with a constraint on \<open>foo\<close> is
  rejected.
\<close>

theorem objective_metric_unconstrainable:
  assumes "\<not> is_MultiObjective obj"
    and "c \<in> set ocs" "oc_metric c = Inr m"
    and "metric_name m \<in> metric_name ` set (objective_metrics obj)"
  shows "OptimizationConfig_init obj (Some ocs) rm = Inl CannotConstrainObjectiveMetric
       \<and> (cfg_objective self = obj \<longrightarrow>
            set_outcome_constraints self ocs = (Inl CannotConstrainObjectiveMetric, self))
       \<and> (cfg_outcome_constraints self = ocs \<longrightarrow>
            set_objective self obj = (Inl CannotConstrainObjectiveMetric, self))
       \<and> error_class CannotConstrainObjectiveMetric = ValueError"
  using validate_transformed_objective_metric [OF assms]
  by (simp add: OptimizationConfig_init_def set_outcome_constraints_def set_objective_def)

theorem objective_metric_unconstrainable_witness:
  "OptimizationConfig_init (Objective \<lparr>metric_name = ''foo'', lower_is_better = None\<rparr> True)
     (Some [OutcomeConstraint \<lparr>metric_name = ''foo'', lower_is_better = None\<rparr> LEQ 1 False]) None
   = Inl CannotConstrainObjectiveMetric"
  using objective_metric_unconstrainable [of
      "Objective \<lparr>metric_name = ''foo'', lower_is_better = None\<rparr> True"
      "OutcomeConstraint \<lparr>metric_name = ''foo'', lower_is_better = None\<rparr> LEQ 1 False"
      "[OutcomeConstraint \<lparr>metric_name = ''foo'', lower_is_better = None\<rparr> LEQ 1 False]"
      "\<lparr>metric_name = ''foo'', lower_is_better = None\<rparr>" None]
  by simp

text \<open>
  The claim as first stated covers every objective. A \<^verbatim>\<open>MultiObjective\<close> over \<open>foo\<close> and
  \<open>bar\<close> with a constraint on \<open>foo\<close> is refused by the type guard, with the error that
  directs to the multi-objective class, before the constraints are looked at.
\<close>

theorem objective_metric_counterexample:
  "OptimizationConfig_init
     (MultiObjective [(\<lparr>metric_name = ''foo'', lower_is_better = None\<rparr>, True),
                      (\<lparr>metric_name = ''bar'', lower_is_better = None\<rparr>, True)])
     (Some [OutcomeConstraint \<lparr>metric_name = ''foo'', lower_is_better = None\<rparr> LEQ 1 False]) None
   = Inl MultiObjectiveNotSupported
   \<and> MultiObjectiveNotSupported \<noteq> CannotConstrainObjectiveMetric"
  by (simp add: OptimizationConfig_init_def validate_transformed_optimization_config_def)

subsection \<open>Scalarized outcome constraints\<close>

lemma validate_transformed_ignores_scalarized:
  "validate_transformed_optimization_config obj (Some ocs) rm
   = validate_transformed_optimization_config obj
       (Some (filter (\<lambda>c. \<not> is_scalarized c) ocs)) rm"
  by (cases obj) (simp_all add: validate_transformed_optimization_config_def or_empty_def)

lemma validate_outcome_constraints_Nil: "validate_outcome_constraints um [] = Inr ()"
  by (simp add: validate_outcome_constraints_def list_ex_iff)

lemma validate_transformed_all_scalarized:
  assumes "\<not> is_MultiObjective obj" "\<forall>c\<in>set ocs. is_scalarized c"
  shows "validate_transformed_optimization_config obj (Some ocs) rm = Inr ()"
proof -
  from assms(2) have "filter (\<lambda>c. is_scalarized c = False) ocs = []"
    by (simp add: filter_empty_conv)
  with assms(1) show ?thesis
    by (cases obj)
      (simp_all add: validate_transformed_optimization_config_def or_empty_def
        validate_outcome_constraints_Nil)
qed

text \<open>
  C10. The validation of a plain \<^verbatim>\<open>OptimizationConfig\<close> filters the scalarized outcome
  constraints out before the check against the objective's metrics and the check of the
  groups: the outcome is that of the list without them, and a list of scalarized
  constraints only, whatever their metrics and however many, is accepted by the
  constructor and the setters.
\<close>

theorem scalarized_constraints_skipped:
  "validate_transformed_optimization_config obj (Some ocs) rm
     = validate_transformed_optimization_config obj
         (Some (filter (\<lambda>c. \<not> is_scalarized c) ocs)) rm
   \<and> (\<not> is_MultiObjective obj \<and> (\<forall>c\<in>set ocs. is_scalarized c) \<longrightarrow>
        OptimizationConfig_init obj (Some ocs) rm
          = Inr \<lparr>cfg_objective = obj, cfg_outcome_constraints = ocs, cfg_risk_measure = rm\<rparr>
        \<and> (cfg_objective self = obj \<longrightarrow>
             set_outcome_constraints self ocs
               = (Inr (), self\<lparr>cfg_outcome_constraints := ocs\<rparr>))
        \<and> (cfg_outcome_constraints self = ocs \<longrightarrow>
             set_objective self obj = (Inr (), self\<lparr>cfg_objective := obj\<rparr>)))"
proof (intro conjI impI)
  show "validate_transformed_optimization_config obj (Some ocs) rm
     = validate_transformed_optimization_config obj
         (Some (filter (\<lambda>c. \<not> is_scalarized c) ocs)) rm"
    by (rule validate_transformed_ignores_scalarized)
next
  assume a: "\<not> is_MultiObjective obj \<and> (\<forall>c\<in>set ocs. is_scalarized c)"
  then have ok: "validate_transformed_optimization_config obj (Some ocs) r = Inr ()" for r
    by (simp add: validate_transformed_all_scalarized)
  show "OptimizationConfig_init obj (Some ocs) rm
          = Inr \<lparr>cfg_objective = obj, cfg_outcome_constraints = ocs, cfg_risk_measure = rm\<rparr>"
    by (simp add: OptimizationConfig_init_def ok)
  show "set_outcome_constraints self ocs = (Inr (), self\<lparr>cfg_outcome_constraints := ocs\<rparr>)"
    if "cfg_objective self = obj"
    using that by (simp add: set_outcome_constraints_def ok)
  show "set_objective self obj = (Inr (), self\<lparr>cfg_objective := obj\<rparr>)"
    if "cfg_outcome_constraints self = ocs"
    using that by (simp add: set_objective_def ok)
qed

theorem scalarized_constraints_skipped_witness:
  "OptimizationConfig_init (Objective \<lparr>metric_name = ''foo'', lower_is_better = None\<rparr> True)
     (Some [ScalarizedOutcomeConstraint [\<lparr>metric_name = ''foo'', lower_is_better = None\<rparr>] [1] LEQ 1 False,
            ScalarizedOutcomeConstraint [\<lparr>metric_name = ''foo'', lower_is_better = None\<rparr>] [1] LEQ 2 False,
            ScalarizedOutcomeConstraint [\<lparr>metric_name = ''foo'', lower_is_better = None\<rparr>] [1] LEQ 3 False])
     None
   = Inr \<lparr>cfg_objective = Objective \<lparr>metric_name = ''foo'', lower_is_better = None\<rparr> True,
          cfg_outcome_constraints =
            [ScalarizedOutcomeConstraint [\<lparr>metric_name = ''foo'', lower_is_better = None\<rparr>] [1] LEQ 1 False,
             ScalarizedOutcomeConstraint [\<lparr>metric_name = ''foo'', lower_is_better = None\<rparr>] [1] LEQ 2 False,
             ScalarizedOutcomeConstraint [\<lparr>metric_name = ''foo'', lower_is_better = None\<rparr>] [1] LEQ 3 False],
          cfg_risk_measure = None\<rparr>"
  using scalarized_constraints_skipped [of
      "Objective \<lparr>metric_name = ''foo'', lower_is_better = None\<rparr> True"
      "[ScalarizedOutcomeConstraint [\<lparr>metric_name = ''foo'', lower_is_better = None\<rparr>] [1] LEQ 1 False,
        ScalarizedOutcomeConstraint [\<lparr>metric_name = ''foo'', lower_is_better = None\<rparr>] [1] LEQ 2 False,
        ScalarizedOutcomeConstraint [\<lparr>metric_name = ''foo'', lower_is_better = None\<rparr>] [1] LEQ 3 False]"
      None
      "\<lparr>cfg_objective = Objective \<lparr>metric_name = ''foo'', lower_is_better = None\<rparr> True,
        cfg_outcome_constraints = [], cfg_risk_measure = None\<rparr>"]
  by simp

subsection \<open>The type guards\<close>

lemma constraint_metric_names_error:
  "constraint_metric_names ocs = Inl e \<Longrightarrow> e = NoSingleMetric"
proof (induction ocs)
  case Nil
  then show ?case by simp
next
  case (Cons c cs)
  then show ?case by (cases c) (auto split: sum.splits)
qed

lemma check_group_error:
  "check_group g = Inl e \<Longrightarrow> error_class e = ValueError \<and> e \<noteq> MultiObjectiveNotSupported"
  by (cases g) (auto simp: check_group_def Let_def split: if_splits)

lemma check_groups_error:
  "check_groups gs = Inl e \<Longrightarrow> error_class e = ValueError \<and> e \<noteq> MultiObjectiveNotSupported"
  by (induction gs) (auto split: sum.splits dest: check_group_error)

lemma validate_outcome_constraints_error:
  "validate_outcome_constraints um ocs = Inl e \<Longrightarrow> e \<noteq> MultiObjectiveNotSupported"
  unfolding validate_outcome_constraints_def Let_def
  by (auto split: sum.splits if_splits dest: constraint_metric_names_error check_groups_error)

text \<open>
  C5. A plain \<^verbatim>\<open>OptimizationConfig\<close> given a \<^verbatim>\<open>MultiObjective\<close> raises the error that
  directs to \<^verbatim>\<open>MultiObjectiveOptimizationConfig\<close>, at construction and in the setter of
  the objective; a \<^verbatim>\<open>ScalarizedObjective\<close> never meets that error and is accepted when
  no constraint is given. A \<^verbatim>\<open>MultiObjectiveOptimizationConfig\<close> given an objective that
  is neither a \<^verbatim>\<open>MultiObjective\<close> nor a \<^verbatim>\<open>ScalarizedObjective\<close> raises a \<^verbatim>\<open>TypeError\<close>.
\<close>

theorem objective_type_guard:
  "OptimizationConfig_init (MultiObjective objectives) ocs rm = Inl MultiObjectiveNotSupported
   \<and> set_objective self (MultiObjective objectives) = (Inl MultiObjectiveNotSupported, self)
   \<and> error_class MultiObjectiveNotSupported = ValueError
   \<and> OptimizationConfig_init (ScalarizedObjective ms ws mn) ocs rm \<noteq> Inl MultiObjectiveNotSupported
   \<and> OptimizationConfig_init (ScalarizedObjective ms ws mn) None rm
       = Inr \<lparr>cfg_objective = ScalarizedObjective ms ws mn, cfg_outcome_constraints = [],
              cfg_risk_measure = rm\<rparr>
   \<and> MultiObjectiveOptimizationConfig_init (Objective m mn) ocs ots rm = Inl RequiresMultiOrScalarized
   \<and> moo_set_objective mself (Objective m mn) = (Inl RequiresMultiOrScalarized, mself)
   \<and> error_class RequiresMultiOrScalarized = TypeError"
proof (intro conjI)
  show "OptimizationConfig_init (ScalarizedObjective ms ws mn) ocs rm \<noteq> Inl MultiObjectiveNotSupported"
    unfolding OptimizationConfig_init_def validate_transformed_optimization_config_def Let_def
    by (auto split: sum.splits dest: validate_outcome_constraints_error)
  show "OptimizationConfig_init (ScalarizedObjective ms ws mn) None rm
       = Inr \<lparr>cfg_objective = ScalarizedObjective ms ws mn, cfg_outcome_constraints = [],
              cfg_risk_measure = rm\<rparr>"
    by (simp add: OptimizationConfig_init_def validate_transformed_optimization_config_def
        or_empty_def validate_outcome_constraints_def list_ex_iff)
qed (simp_all add: OptimizationConfig_init_def validate_transformed_optimization_config_def
      set_objective_def MultiObjectiveOptimizationConfig_init_def moo_set_objective_def
      moo_validate_transformed_optimization_config_def)

section \<open>Properties of the multi-objective configuration\<close>

subsection \<open>Objective thresholds\<close>

lemma dom_foldl_by_name:
  "dom (foldl (\<lambda>d obj. d(metric_name (fst obj) \<mapsto> obj)) d objectives)
   = dom d \<union> metric_name ` fst ` set objectives"
  by (induction objectives arbitrary: d) auto

lemma dom_objectives_by_name:
  "dom (objectives_by_name objectives) = metric_name ` fst ` set objectives"
  by (simp add: objectives_by_name_def dom_foldl_by_name)

lemma check_thresholds_from_ok:
  "check_thresholds_from by_name seen ots = Inr () \<longleftrightarrow>
     (\<forall>t\<in>set ots. metric_name (ot_metric t) \<in> dom by_name) \<and>
     distinct (map (\<lambda>t. metric_name (ot_metric t)) ots) \<and>
     (\<forall>t\<in>set ots. metric_name (ot_metric t) \<notin> seen) \<and>
     (\<forall>t\<in>set ots.
        case by_name (metric_name (ot_metric t)) of
          None \<Rightarrow> True
        | Some obj \<Rightarrow> (ot_op t = LEQ) = snd obj)"
proof (induction ots arbitrary: seen)
  case Nil
  then show ?case by simp
next
  case (Cons t ts)
  show ?case
  proof (cases "by_name (metric_name (ot_metric t))")
    case None
    then show ?thesis by (auto simp: Let_def)
  next
    case (Some obj)
    then show ?thesis
      unfolding check_thresholds_from.simps Let_def
      by (simp add: Cons.IH domI) (auto simp: image_iff)
  qed
qed

lemma check_thresholds_from_error:
  "check_thresholds_from by_name seen ots = Inl e \<Longrightarrow> error_class e = UserInputError"
proof (induction ots arbitrary: seen)
  case Nil
  then show ?case by simp
next
  case (Cons t ts)
  then show ?case
    by (auto simp: Let_def split: option.splits if_splits)
qed

lemma check_objective_thresholds_spec:
  "check_objective_thresholds_match_objectives (objectives_by_name objectives) ots = Inr ()
   \<longleftrightarrow> spec_thresholds_accepted objectives ots"
  by (simp add: check_objective_thresholds_match_objectives_def check_thresholds_from_ok
      spec_thresholds_accepted_def dom_objectives_by_name)

lemma check_objective_thresholds_error:
  "\<not> spec_thresholds_accepted objectives ots \<Longrightarrow>
   \<exists>e. check_objective_thresholds_match_objectives (objectives_by_name objectives) ots = Inl e
       \<and> error_class e = UserInputError"
proof -
  assume "\<not> spec_thresholds_accepted objectives ots"
  then have "check_objective_thresholds_match_objectives (objectives_by_name objectives) ots \<noteq> Inr ()"
    by (simp add: check_objective_thresholds_spec)
  then obtain e where e: "check_objective_thresholds_match_objectives (objectives_by_name objectives) ots = Inl e"
    by (cases "check_objective_thresholds_match_objectives (objectives_by_name objectives) ots") auto
  then have "error_class e = UserInputError"
    unfolding check_objective_thresholds_match_objectives_def
    by (rule check_thresholds_from_error)
  with e show ?thesis by blast
qed

lemma moo_validate_thresholds_only:
  "moo_validate_transformed_optimization_config (MultiObjective objectives) None (Some ots) rm
   = check_objective_thresholds_match_objectives (objectives_by_name objectives) ots"
  by (simp add: moo_validate_transformed_optimization_config_def or_empty_def
      validate_outcome_constraints_Nil split: sum.splits)

text \<open>
  C3. On a configuration whose objective is a \<^verbatim>\<open>MultiObjective\<close>, the setter of
  \<^verbatim>\<open>objective_thresholds\<close> and the constructor with no outcome constraints accept a
  list of thresholds exactly when every threshold is on a metric of the objective, no two
  are on the same metric, and each bounds from above exactly when its objective is
  minimized; the constructor with outcome constraints asks, besides, that these pass
  their own check. The setter then stores the list; otherwise it raises a
  \<^verbatim>\<open>UserInputError\<close> and leaves the configuration as it was, and the constructor raises a
  \<^verbatim>\<open>UserInputError\<close> whatever the outcome constraints are.
\<close>

theorem objective_thresholds_accepted:
  assumes "cfg_objective self = MultiObjective objectives"
  shows "(fst (moo_set_objective_thresholds self ots) = Inr ()
            \<longleftrightarrow> spec_thresholds_accepted objectives ots)
       \<and> (spec_thresholds_accepted objectives ots \<longrightarrow>
            moo_set_objective_thresholds self ots
              = (Inr (), self\<lparr>cfg_objective_thresholds := ots\<rparr>))
       \<and> (\<not> spec_thresholds_accepted objectives ots \<longrightarrow>
            (\<exists>e. moo_set_objective_thresholds self ots = (Inl e, self)
                 \<and> error_class e = UserInputError))
       \<and> (\<not> isl (MultiObjectiveOptimizationConfig_init (MultiObjective objectives) None (Some ots) rm)
            \<longleftrightarrow> spec_thresholds_accepted objectives ots)
       \<and> (\<not> isl (MultiObjectiveOptimizationConfig_init (MultiObjective objectives) ocs (Some ots) rm)
            \<longleftrightarrow> spec_thresholds_accepted objectives ots
               \<and> validate_outcome_constraints
                    (get_unconstrainable_metrics (MultiObjective objectives)) (or_empty ocs)
                  = Inr ())
       \<and> (\<not> spec_thresholds_accepted objectives ots \<longrightarrow>
            (\<exists>e. MultiObjectiveOptimizationConfig_init (MultiObjective objectives) ocs (Some ots) rm
                   = Inl e \<and> error_class e = UserInputError))"
proof -
  let ?chk = "check_objective_thresholds_match_objectives (objectives_by_name objectives) ots"
  have setter: "moo_set_objective_thresholds self ots
      = (case ?chk of Inl e \<Rightarrow> (Inl e, self)
         | Inr u \<Rightarrow> (Inr (), self\<lparr>cfg_objective_thresholds := ots\<rparr>))"
    by (simp add: moo_set_objective_thresholds_def assms moo_validate_thresholds_only)
  have init_none: "\<not> isl (MultiObjectiveOptimizationConfig_init (MultiObjective objectives) None (Some ots) rm)
      \<longleftrightarrow> ?chk = Inr ()"
    by (auto simp: MultiObjectiveOptimizationConfig_init_def or_empty_def
        moo_validate_transformed_optimization_config_def validate_outcome_constraints_Nil
        split: sum.splits)
  have init_any: "\<not> isl (MultiObjectiveOptimizationConfig_init (MultiObjective objectives) ocs (Some ots) rm)
      \<longleftrightarrow> ?chk = Inr ()
        \<and> validate_outcome_constraints
             (get_unconstrainable_metrics (MultiObjective objectives)) (or_empty ocs) = Inr ()"
    by (cases ocs)
      (auto simp: MultiObjectiveOptimizationConfig_init_def or_empty_def
        moo_validate_transformed_optimization_config_def split: sum.splits)
  have init_err: "MultiObjectiveOptimizationConfig_init (MultiObjective objectives) ocs (Some ots) rm = Inl e"
    if "?chk = Inl e" for e
    using that
    by (simp add: MultiObjectiveOptimizationConfig_init_def or_empty_def
        moo_validate_transformed_optimization_config_def)
  show ?thesis
  proof (cases "spec_thresholds_accepted objectives ots")
    case True
    then have "?chk = Inr ()" by (simp add: check_objective_thresholds_spec)
    with True show ?thesis by (simp add: setter init_none init_any)
  next
    case False
    from check_objective_thresholds_error [OF False]
    obtain e where e: "?chk = Inl e" "error_class e = UserInputError" by blast
    with False show ?thesis
      by (auto simp: setter init_none init_any init_err)
  qed
qed

theorem objective_thresholds_accepted_witness:
  "moo_set_objective_thresholds
     \<lparr>cfg_objective = MultiObjective [(\<lparr>metric_name = ''m1'', lower_is_better = None\<rparr>, True),
                                       (\<lparr>metric_name = ''m2'', lower_is_better = None\<rparr>, False)],
      cfg_outcome_constraints = [], cfg_risk_measure = None, cfg_objective_thresholds = []\<rparr>
     [\<lparr>ot_metric = \<lparr>metric_name = ''m1'', lower_is_better = None\<rparr>, ot_op = LEQ, ot_bound = 1,
       ot_relative = False\<rparr>,
      \<lparr>ot_metric = \<lparr>metric_name = ''m2'', lower_is_better = None\<rparr>, ot_op = GEQ, ot_bound = 0,
       ot_relative = False\<rparr>]
   = (Inr (),
      \<lparr>cfg_objective = MultiObjective [(\<lparr>metric_name = ''m1'', lower_is_better = None\<rparr>, True),
                                       (\<lparr>metric_name = ''m2'', lower_is_better = None\<rparr>, False)],
      cfg_outcome_constraints = [], cfg_risk_measure = None,
      cfg_objective_thresholds =
        [\<lparr>ot_metric = \<lparr>metric_name = ''m1'', lower_is_better = None\<rparr>, ot_op = LEQ, ot_bound = 1,
          ot_relative = False\<rparr>,
         \<lparr>ot_metric = \<lparr>metric_name = ''m2'', lower_is_better = None\<rparr>, ot_op = GEQ, ot_bound = 0,
          ot_relative = False\<rparr>]\<rparr>)
   \<and> fst (moo_set_objective_thresholds
     \<lparr>cfg_objective = MultiObjective [(\<lparr>metric_name = ''m1'', lower_is_better = None\<rparr>, True),
                                       (\<lparr>metric_name = ''m2'', lower_is_better = None\<rparr>, False)],
      cfg_outcome_constraints = [], cfg_risk_measure = None, cfg_objective_thresholds = []\<rparr>
     [\<lparr>ot_metric = \<lparr>metric_name = ''m1'', lower_is_better = None\<rparr>, ot_op = GEQ, ot_bound = 1,
       ot_relative = False\<rparr>]) \<noteq> Inr ()"
  using objective_thresholds_accepted [of
     "\<lparr>cfg_objective = MultiObjective [(\<lparr>metric_name = ''m1'', lower_is_better = None\<rparr>, True),
                                       (\<lparr>metric_name = ''m2'', lower_is_better = None\<rparr>, False)],
      cfg_outcome_constraints = [], cfg_risk_measure = None, cfg_objective_thresholds = []\<rparr>"
     "[(\<lparr>metric_name = ''m1'', lower_is_better = None\<rparr>, True),
       (\<lparr>metric_name = ''m2'', lower_is_better = None\<rparr>, False)]"
     "[\<lparr>ot_metric = \<lparr>metric_name = ''m1'', lower_is_better = None\<rparr>, ot_op = LEQ, ot_bound = 1,
       ot_relative = False\<rparr>,
      \<lparr>ot_metric = \<lparr>metric_name = ''m2'', lower_is_better = None\<rparr>, ot_op = GEQ, ot_bound = 0,
       ot_relative = False\<rparr>]" None None]
   objective_thresholds_accepted [of
     "\<lparr>cfg_objective = MultiObjective [(\<lparr>metric_name = ''m1'', lower_is_better = None\<rparr>, True),
                                       (\<lparr>metric_name = ''m2'', lower_is_better = None\<rparr>, False)],
      cfg_outcome_constraints = [], cfg_risk_measure = None, cfg_objective_thresholds = []\<rparr>"
     "[(\<lparr>metric_name = ''m1'', lower_is_better = None\<rparr>, True),
       (\<lparr>metric_name = ''m2'', lower_is_better = None\<rparr>, False)]"
     "[\<lparr>ot_metric = \<lparr>metric_name = ''m1'', lower_is_better = None\<rparr>, ot_op = GEQ, ot_bound = 1,
       ot_relative = False\<rparr>]" None None]
  by (simp add: spec_thresholds_accepted_def objectives_by_name_def)

subsection \<open>Constructors and setters are atomic\<close>

lemma OptimizationConfig_init_atomic:
  "(case OptimizationConfig_init obj ocs rm of
      Inr cfg \<Rightarrow>
        cfg = \<lparr>cfg_objective = obj, cfg_outcome_constraints = or_empty ocs, cfg_risk_measure = rm\<rparr>
        \<and> valid_config cfg
    | Inl e \<Rightarrow>
        \<not> valid_config
            \<lparr>cfg_objective = obj, cfg_outcome_constraints = or_empty ocs, cfg_risk_measure = rm\<rparr>)"
  by (cases ocs)
    (auto simp: OptimizationConfig_init_def valid_config_def or_empty_def split: sum.splits)

lemma set_objective_atomic:
  "spec_atomic (set_objective self obj) self (self\<lparr>cfg_objective := obj\<rparr>)
     (valid_config (self\<lparr>cfg_objective := obj\<rparr>))"
  by (auto simp: spec_atomic_def set_objective_def valid_config_def split: sum.splits)

lemma set_outcome_constraints_atomic:
  "spec_atomic (set_outcome_constraints self cs) self (self\<lparr>cfg_outcome_constraints := cs\<rparr>)
     (valid_config (self\<lparr>cfg_outcome_constraints := cs\<rparr>))"
  by (auto simp: spec_atomic_def set_outcome_constraints_def valid_config_def split: sum.splits)

lemma MultiObjectiveOptimizationConfig_init_atomic:
  "(case MultiObjectiveOptimizationConfig_init obj ocs ots rm of
      Inr cfg \<Rightarrow>
        cfg = \<lparr>cfg_objective = obj, cfg_outcome_constraints = or_empty ocs, cfg_risk_measure = rm,
               cfg_objective_thresholds = or_empty ots\<rparr>
        \<and> moo_valid_config cfg
    | Inl e \<Rightarrow>
        \<not> moo_valid_config
            \<lparr>cfg_objective = obj, cfg_outcome_constraints = or_empty ocs, cfg_risk_measure = rm,
             cfg_objective_thresholds = or_empty ots\<rparr>)"
  by (cases ocs)
    (auto simp: MultiObjectiveOptimizationConfig_init_def moo_valid_config_def or_empty_def
      Let_def split: sum.splits)

lemma moo_set_objective_atomic:
  "spec_atomic (moo_set_objective mself obj) mself (mself\<lparr>cfg_objective := obj\<rparr>)
     (moo_valid_config (mself\<lparr>cfg_objective := obj\<rparr>))"
  by (auto simp: spec_atomic_def moo_set_objective_def moo_valid_config_def split: sum.splits)

lemma check_thresholds_Nil: "check_objective_thresholds_match_objectives by_name [] = Inr ()"
  by (simp add: check_objective_thresholds_match_objectives_def)

text \<open>The validation of the subclass passes exactly when its two halves pass.\<close>

lemma moo_validate_split:
  "moo_validate_transformed_optimization_config obj (Some ocs) (Some ots) rm = Inr () \<longleftrightarrow>
     moo_validate_transformed_optimization_config obj (Some ocs) None rm = Inr () \<and>
     moo_validate_transformed_optimization_config obj None (Some ots) rm = Inr ()"
  by (cases obj)
    (auto simp: moo_validate_transformed_optimization_config_def or_empty_def
      check_thresholds_Nil validate_outcome_constraints_Nil split: sum.splits)

lemma moo_set_outcome_constraints_atomic:
  assumes "moo_valid_config mself"
  shows "spec_atomic (moo_set_outcome_constraints mself cs) mself
     (mself\<lparr>cfg_outcome_constraints := cs\<rparr>)
     (moo_valid_config (mself\<lparr>cfg_outcome_constraints := cs\<rparr>))"
proof -
  from assms have "moo_validate_transformed_optimization_config (cfg_objective mself) None
      (Some (cfg_objective_thresholds mself)) (cfg_risk_measure mself) = Inr ()"
    by (simp add: moo_valid_config_def moo_validate_split)
  then have "moo_valid_config (mself\<lparr>cfg_outcome_constraints := cs\<rparr>) \<longleftrightarrow>
      moo_validate_transformed_optimization_config (cfg_objective mself) (Some cs) None
        (cfg_risk_measure mself) = Inr ()"
    by (simp add: moo_valid_config_def moo_validate_split)
  then show ?thesis
    by (auto simp: spec_atomic_def moo_set_outcome_constraints_def split: sum.splits)
qed

lemma moo_set_objective_thresholds_atomic:
  assumes "moo_valid_config mself"
  shows "spec_atomic (moo_set_objective_thresholds mself ts) mself
     (mself\<lparr>cfg_objective_thresholds := ts\<rparr>)
     (moo_valid_config (mself\<lparr>cfg_objective_thresholds := ts\<rparr>))"
proof -
  from assms have "moo_validate_transformed_optimization_config (cfg_objective mself)
      (Some (cfg_outcome_constraints mself)) None (cfg_risk_measure mself) = Inr ()"
    by (simp add: moo_valid_config_def moo_validate_split)
  then have "moo_valid_config (mself\<lparr>cfg_objective_thresholds := ts\<rparr>) \<longleftrightarrow>
      moo_validate_transformed_optimization_config (cfg_objective mself) None (Some ts)
        (cfg_risk_measure mself) = Inr ()"
    by (simp add: moo_valid_config_def moo_validate_split)
  then show ?thesis
    by (auto simp: spec_atomic_def moo_set_objective_thresholds_def split: sum.splits)
qed

lemma moo_set_outcome_constraints_all_or_nothing:
  "moo_set_outcome_constraints mself cs = (Inr (), mself\<lparr>cfg_outcome_constraints := cs\<rparr>)
      \<or> isl (fst (moo_set_outcome_constraints mself cs))
        \<and> snd (moo_set_outcome_constraints mself cs) = mself"
  by (auto simp: moo_set_outcome_constraints_def split: sum.splits)

lemma moo_set_objective_thresholds_all_or_nothing:
  "moo_set_objective_thresholds mself ts = (Inr (), mself\<lparr>cfg_objective_thresholds := ts\<rparr>)
      \<or> isl (fst (moo_set_objective_thresholds mself ts))
        \<and> snd (moo_set_objective_thresholds mself ts) = mself"
  by (auto simp: moo_set_objective_thresholds_def split: sum.splits)

text \<open>
  C4. Each constructor returns a configuration exactly when the full validation of the
  fields it is given passes, and that configuration holds those fields. Each setter
  validates before it assigns: it either succeeds and leaves the configuration with the
  one field replaced, or raises and leaves the configuration as it was. The setters of a
  plain configuration and the setter of the objective of the subclass succeed exactly
  when the full validation of the resulting configuration passes; the two other setters
  of the subclass validate the new value with the objective only, which on a valid
  configuration (every configuration a constructor or a setter leaves) is again exactly
  the full validation of the resulting configuration.
\<close>

theorem config_operations_atomic:
  "(case OptimizationConfig_init obj ocs rm of
      Inr cfg \<Rightarrow>
        cfg = \<lparr>cfg_objective = obj, cfg_outcome_constraints = or_empty ocs, cfg_risk_measure = rm\<rparr>
        \<and> valid_config cfg
    | Inl e \<Rightarrow>
        \<not> valid_config
            \<lparr>cfg_objective = obj, cfg_outcome_constraints = or_empty ocs, cfg_risk_measure = rm\<rparr>)
   \<and> spec_atomic (set_objective self obj) self (self\<lparr>cfg_objective := obj\<rparr>)
       (valid_config (self\<lparr>cfg_objective := obj\<rparr>))
   \<and> spec_atomic (set_outcome_constraints self cs) self (self\<lparr>cfg_outcome_constraints := cs\<rparr>)
       (valid_config (self\<lparr>cfg_outcome_constraints := cs\<rparr>))
   \<and> (case MultiObjectiveOptimizationConfig_init obj ocs ots rm of
        Inr cfg \<Rightarrow>
          cfg = \<lparr>cfg_objective = obj, cfg_outcome_constraints = or_empty ocs, cfg_risk_measure = rm,
                 cfg_objective_thresholds = or_empty ots\<rparr>
          \<and> moo_valid_config cfg
      | Inl e \<Rightarrow>
          \<not> moo_valid_config
              \<lparr>cfg_objective = obj, cfg_outcome_constraints = or_empty ocs, cfg_risk_measure = rm,
               cfg_objective_thresholds = or_empty ots\<rparr>)
   \<and> spec_atomic (moo_set_objective mself obj) mself (mself\<lparr>cfg_objective := obj\<rparr>)
       (moo_valid_config (mself\<lparr>cfg_objective := obj\<rparr>))
   \<and> (moo_set_outcome_constraints mself cs = (Inr (), mself\<lparr>cfg_outcome_constraints := cs\<rparr>)
      \<or> isl (fst (moo_set_outcome_constraints mself cs))
        \<and> snd (moo_set_outcome_constraints mself cs) = mself)
   \<and> (moo_set_objective_thresholds mself ts = (Inr (), mself\<lparr>cfg_objective_thresholds := ts\<rparr>)
      \<or> isl (fst (moo_set_objective_thresholds mself ts))
        \<and> snd (moo_set_objective_thresholds mself ts) = mself)
   \<and> (moo_valid_config mself \<longrightarrow>
        spec_atomic (moo_set_outcome_constraints mself cs) mself
          (mself\<lparr>cfg_outcome_constraints := cs\<rparr>)
          (moo_valid_config (mself\<lparr>cfg_outcome_constraints := cs\<rparr>))
        \<and> spec_atomic (moo_set_objective_thresholds mself ts) mself
          (mself\<lparr>cfg_objective_thresholds := ts\<rparr>)
          (moo_valid_config (mself\<lparr>cfg_objective_thresholds := ts\<rparr>)))"
  by (intro conjI impI OptimizationConfig_init_atomic set_objective_atomic
      set_outcome_constraints_atomic MultiObjectiveOptimizationConfig_init_atomic
      moo_set_objective_atomic moo_set_outcome_constraints_all_or_nothing
      moo_set_objective_thresholds_all_or_nothing moo_set_outcome_constraints_atomic
      moo_set_objective_thresholds_atomic)

theorem config_operations_atomic_witness:
  "snd (set_outcome_constraints
     \<lparr>cfg_objective = Objective \<lparr>metric_name = ''foo'', lower_is_better = None\<rparr> True,
      cfg_outcome_constraints = [], cfg_risk_measure = None\<rparr>
     [OutcomeConstraint \<lparr>metric_name = ''foo'', lower_is_better = None\<rparr> LEQ 1 False])
   = \<lparr>cfg_objective = Objective \<lparr>metric_name = ''foo'', lower_is_better = None\<rparr> True,
      cfg_outcome_constraints = [], cfg_risk_measure = None\<rparr>
   \<and> isl (fst (set_outcome_constraints
     \<lparr>cfg_objective = Objective \<lparr>metric_name = ''foo'', lower_is_better = None\<rparr> True,
      cfg_outcome_constraints = [], cfg_risk_measure = None\<rparr>
     [OutcomeConstraint \<lparr>metric_name = ''foo'', lower_is_better = None\<rparr> LEQ 1 False]))
   \<and> moo_valid_config
     \<lparr>cfg_objective = MultiObjective [(\<lparr>metric_name = ''m1'', lower_is_better = None\<rparr>, True)],
      cfg_outcome_constraints = [], cfg_risk_measure = None, cfg_objective_thresholds = []\<rparr>
   \<and> moo_set_objective_thresholds
     \<lparr>cfg_objective = MultiObjective [(\<lparr>metric_name = ''m1'', lower_is_better = None\<rparr>, True)],
      cfg_outcome_constraints = [], cfg_risk_measure = None, cfg_objective_thresholds = []\<rparr>
     [\<lparr>ot_metric = \<lparr>metric_name = ''m1'', lower_is_better = None\<rparr>, ot_op = LEQ, ot_bound = 1,
       ot_relative = False\<rparr>]
   = (Inr (),
     \<lparr>cfg_objective = MultiObjective [(\<lparr>metric_name = ''m1'', lower_is_better = None\<rparr>, True)],
      cfg_outcome_constraints = [], cfg_risk_measure = None,
      cfg_objective_thresholds =
        [\<lparr>ot_metric = \<lparr>metric_name = ''m1'', lower_is_better = None\<rparr>, ot_op = LEQ, ot_bound = 1,
          ot_relative = False\<rparr>]\<rparr>)"
proof -
  have invalid: "\<not> valid_config
     \<lparr>cfg_objective = Objective \<lparr>metric_name = ''foo'', lower_is_better = None\<rparr> True,
      cfg_outcome_constraints =
        [OutcomeConstraint \<lparr>metric_name = ''foo'', lower_is_better = None\<rparr> LEQ 1 False],
      cfg_risk_measure = None\<rparr>"
    by (simp add: valid_config_def validate_transformed_optimization_config_def or_empty_def
        validate_outcome_constraints_def get_unconstrainable_metrics_def)
  have valid0: "moo_valid_config
     \<lparr>cfg_objective = MultiObjective [(\<lparr>metric_name = ''m1'', lower_is_better = None\<rparr>, True)],
      cfg_outcome_constraints = [], cfg_risk_measure = None, cfg_objective_thresholds = []\<rparr>"
    by (simp add: moo_valid_config_def moo_validate_transformed_optimization_config_def
        or_empty_def validate_outcome_constraints_def get_unconstrainable_metrics_def
        check_objective_thresholds_match_objectives_def)
  have valid1: "moo_valid_config
     \<lparr>cfg_objective = MultiObjective [(\<lparr>metric_name = ''m1'', lower_is_better = None\<rparr>, True)],
      cfg_outcome_constraints = [], cfg_risk_measure = None,
      cfg_objective_thresholds =
        [\<lparr>ot_metric = \<lparr>metric_name = ''m1'', lower_is_better = None\<rparr>, ot_op = LEQ, ot_bound = 1,
          ot_relative = False\<rparr>]\<rparr>"
    by (simp add: moo_valid_config_def moo_validate_transformed_optimization_config_def
        or_empty_def validate_outcome_constraints_def get_unconstrainable_metrics_def
        check_objective_thresholds_match_objectives_def objectives_by_name_def)
  show ?thesis
    using invalid valid0 valid1
      config_operations_atomic [where
        self = "\<lparr>cfg_objective = Objective \<lparr>metric_name = ''foo'', lower_is_better = None\<rparr> True,
                 cfg_outcome_constraints = [], cfg_risk_measure = None\<rparr>"
        and cs = "[OutcomeConstraint \<lparr>metric_name = ''foo'', lower_is_better = None\<rparr> LEQ 1 False]"
        and mself = "\<lparr>cfg_objective = MultiObjective [(\<lparr>metric_name = ''m1'', lower_is_better = None\<rparr>, True)],
                  cfg_outcome_constraints = [], cfg_risk_measure = None, cfg_objective_thresholds = []\<rparr>"
        and ts = "[\<lparr>ot_metric = \<lparr>metric_name = ''m1'', lower_is_better = None\<rparr>, ot_op = LEQ, ot_bound = 1,
                   ot_relative = False\<rparr>]"
        and obj = "Objective \<lparr>metric_name = ''foo'', lower_is_better = None\<rparr> True"
        and ocs = None and ots = None and rm = None]
    by (simp add: spec_atomic_def)
qed

section \<open>Properties of the quasi-random generator\<close>

lemma rejection_sample_more_draws:
  "rejection_sample sq accept d n pos g = Inr r \<Longrightarrow> d \<le> d' \<Longrightarrow>
   rejection_sample sq accept d' n pos g = Inr r"
proof (induction sq accept d n pos g arbitrary: d' r rule: rejection_sample.induct)
  case (1 sq accept d pos g)
  then show ?case by simp
next
  case (2 sq accept n pos g)
  then show ?case by simp
next
  case (3 sq accept d n pos g)
  from "3.prems"(2) obtain d0 where d': "d' = Suc d0" and le: "d \<le> d0"
    by (cases d') auto
  show ?case
  proof (cases "accept g (sq pos)")
    case True
    with "3.prems"(1) obtain ps pos' where
      rec: "rejection_sample sq accept d n (Suc pos) (g @ [sq pos]) = Inr (ps, pos')"
      and r: "r = (sq pos # ps, pos')"
      by (auto simp: Let_def split: sum.splits)
    from "3.IH"(1) [OF refl True rec le] True r show ?thesis
      by (simp add: d')
  next
    case False
    with "3.prems"(1) have
      rec: "rejection_sample sq accept d (Suc n) (Suc pos) g = Inr r"
      by (simp add: Let_def)
    from "3.IH"(2) [OF refl False rec le] False show ?thesis
      by (simp add: d')
  qed
qed

lemma rejection_sample_split:
  "rejection_sample sq accept d (j + m) pos g = Inr (pts, pos') \<Longrightarrow>
   \<exists>pos1 d1. d1 \<le> d
     \<and> rejection_sample sq accept d j pos g = Inr (take j pts, pos1)
     \<and> rejection_sample sq accept d1 m pos1 (g @ take j pts) = Inr (drop j pts, pos')"
proof (induction d arbitrary: j pos g pts)
  case 0
  show ?case
  proof (cases j)
    case 0
    with "0.prems" show ?thesis by (intro exI [of _ pos] exI [of _ 0]) simp
  next
    case (Suc j')
    with "0.prems" show ?thesis by simp
  qed
next
  case (Suc d)
  show ?case
  proof (cases j)
    case 0
    with Suc.prems show ?thesis by (intro exI [of _ pos] exI [of _ "Suc d"]) simp
  next
    case (Suc j')
    show ?thesis
    proof (cases "accept g (sq pos)")
      case True
      with Suc.prems \<open>j = Suc j'\<close> obtain ps where
        rec: "rejection_sample sq accept d (j' + m) (Suc pos) (g @ [sq pos]) = Inr (ps, pos')"
        and pts: "pts = sq pos # ps"
        by (auto simp: Let_def split: sum.splits)
      from Suc.IH [OF rec] obtain pos1 d1 where
        "d1 \<le> d"
        "rejection_sample sq accept d j' (Suc pos) (g @ [sq pos]) = Inr (take j' ps, pos1)"
        "rejection_sample sq accept d1 m pos1 ((g @ [sq pos]) @ take j' ps) = Inr (drop j' ps, pos')"
        by blast
      with True pts \<open>j = Suc j'\<close> show ?thesis
        by (intro exI [of _ pos1] exI [of _ d1]) simp
    next
      case False
      with Suc.prems \<open>j = Suc j'\<close> have
        rec: "rejection_sample sq accept d (Suc j' + m) (Suc pos) g = Inr (pts, pos')"
        by (simp add: Let_def)
      from Suc.IH [OF rec] obtain pos1 d1 where
        "d1 \<le> d"
        "rejection_sample sq accept d (Suc j') (Suc pos) g = Inr (take (Suc j') pts, pos1)"
        "rejection_sample sq accept d1 m pos1 (g @ take (Suc j') pts) = Inr (drop (Suc j') pts, pos')"
        by blast
      with False \<open>j = Suc j'\<close> show ?thesis
        by (intro exI [of _ pos1] exI [of _ d1]) (simp add: Let_def)
    qed
  qed
qed

lemma rejection_sample_length:
  "rejection_sample sq accept d n pos g = Inr (pts, pos') \<Longrightarrow> length pts = n"
proof (induction sq accept d n pos g arbitrary: pts pos' rule: rejection_sample.induct)
  case (3 sq accept d n pos g)
  then show ?case
    by (cases "accept g (sq pos)") (auto simp: Let_def split: sum.splits)
qed simp_all

lemma single_run_example:
  "gen (\<lambda>s i. s + i) (SobolGenerator_init 0 0) 3 (\<lambda>g p. even p \<and> p \<notin> set g) [] (10 :: nat)
   = (Inr [0, 2, 4 :: nat], \<lparr>seed = 0, init_position = 5\<rparr>)"
  by code_simp

text \<open>
  C9. Resumption is deterministic: when one uninterrupted call on a generator freshly
  seeded with \<open>s\<close> generates \<open>k\<close> points, then for every \<open>j \<le> k\<close> a call for \<open>j\<close> points
  on such a generator, followed by a call for the \<open>k - j\<close> others on a generator
  instantiated with the same seed at the position the first one reached and given the
  first \<open>j\<close> points, generates the same \<open>k\<close> points in the same order and reaches the same
  position.
\<close>

theorem restart_determinism:
  assumes single: "gen engine (SobolGenerator_init s 0) k accept [] max_rs_draws = (Inr points, g)"
    and j: "j \<le> k"
  shows "\<exists>first g1 second g2.
           gen engine (SobolGenerator_init s 0) j accept [] max_rs_draws = (Inr first, g1)
         \<and> gen engine (SobolGenerator_init s (init_position g1)) (k - j) accept first max_rs_draws
             = (Inr second, g2)
         \<and> length first = j \<and> length second = k - j
         \<and> first @ second = points
         \<and> g2 = g"
proof -
  from single obtain pos' where
    run: "rejection_sample (engine s) accept max_rs_draws k 0 [] = Inr (points, pos')"
    and g: "g = \<lparr>seed = s, init_position = pos'\<rparr>"
    by (auto simp: gen_def SobolGenerator_init_def split: sum.splits)
  from j run have "rejection_sample (engine s) accept max_rs_draws (j + (k - j)) 0 [] = Inr (points, pos')"
    by simp
  from rejection_sample_split [OF this] obtain pos1 d1 where
    d1: "d1 \<le> max_rs_draws"
    and fst: "rejection_sample (engine s) accept max_rs_draws j 0 [] = Inr (take j points, pos1)"
    and snd: "rejection_sample (engine s) accept d1 (k - j) pos1 (take j points) = Inr (drop j points, pos')"
    by auto
  from rejection_sample_more_draws [OF snd d1]
  have snd': "rejection_sample (engine s) accept max_rs_draws (k - j) pos1 (take j points)
      = Inr (drop j points, pos')" .
  have g1: "gen engine (SobolGenerator_init s 0) j accept [] max_rs_draws
      = (Inr (take j points), \<lparr>seed = s, init_position = pos1\<rparr>)"
    by (simp add: gen_def SobolGenerator_init_def fst)
  have g2: "gen engine (SobolGenerator_init s pos1) (k - j) accept (take j points) max_rs_draws
      = (Inr (drop j points), g)"
    by (simp add: gen_def SobolGenerator_init_def snd' g)
  from rejection_sample_length [OF fst] rejection_sample_length [OF snd']
  have "length (take j points) = j" "length (drop j points) = k - j" by simp_all
  with g1 g2 show ?thesis
    by (intro exI [of _ "take j points"] exI [of _ "\<lparr>seed = s, init_position = pos1\<rparr>"]
        exI [of _ "drop j points"] exI [of _ g]) simp
qed

theorem restart_determinism_witness:
  "gen (\<lambda>s i. s + i) (SobolGenerator_init 0 0) 3 (\<lambda>g p. even p \<and> p \<notin> set g) [] (10 :: nat)
     = (Inr [0, 2, 4 :: nat], \<lparr>seed = 0, init_position = 5\<rparr>)
   \<and> (1 :: nat) \<le> 3
   \<and> (\<exists>first g1 second g2.
         gen (\<lambda>s i. s + i) (SobolGenerator_init 0 0) 1 (\<lambda>g p. even p \<and> p \<notin> set g) [] (10 :: nat)
           = (Inr first, g1)
       \<and> gen (\<lambda>s i. s + i) (SobolGenerator_init 0 (init_position g1)) (3 - 1)
             (\<lambda>g p. even p \<and> p \<notin> set g) first 10
           = (Inr second, g2)
       \<and> first @ second = [0, 2, 4 :: nat]
       \<and> g2 = \<lparr>seed = 0, init_position = 5\<rparr>)"
proof -
  have le: "(1 :: nat) \<le> 3" by simp
  from restart_determinism [OF single_run_example le] single_run_example le
  show ?thesis by blast
qed

end
